theory Spec2Isabelle
  imports Complex_Main
begin

section \<open>Values, errors and the runtime\<close>

text \<open>
  The development embeds \<^verbatim>\<open>scripts/analyze_performance_results.py\<close>: the result
  loader, the regression detector and the control flow of \<^verbatim>\<open>run_analysis\<close> and
  \<^verbatim>\<open>main\<close>.

  A value produced by \<^verbatim>\<open>json.load\<close> is a \<open>pyval\<close>. A dictionary is an association
  list read with \<open>map_of\<close>.

  A Python float is a \<open>pyfloat\<close>: a finite value, an infinity or NaN. A finite
  value is a real number and arithmetic on finite values is exact, so rounding
  and underflow are not modelled. Overflow is: a result that the format rounds
  to an infinity, one of magnitude \<open>2 ^ 1024 - 2 ^ 970\<close> or more, becomes that
  infinity, or raises OverflowError where Python raises it.
\<close>

datatype pyfloat = Fin real | PosInf | NegInf | NaN

definition overflow_at :: real where
  "overflow_at = 2 ^ 1024 - 2 ^ 970"

definition fl_of_real :: "real \<Rightarrow> pyfloat" where
  "fl_of_real x =
     (if overflow_at \<le> x then PosInf else if x \<le> - overflow_at then NegInf else Fin x)"

fun fl_neg :: "pyfloat \<Rightarrow> pyfloat" where
  "fl_neg (Fin x) = Fin (- x)"
| "fl_neg PosInf = NegInf"
| "fl_neg NegInf = PosInf"
| "fl_neg NaN = NaN"

fun fl_abs :: "pyfloat \<Rightarrow> pyfloat" where
  "fl_abs (Fin x) = Fin \<bar>x\<bar>"
| "fl_abs NaN = NaN"
| "fl_abs a = PosInf"

fun fl_add :: "pyfloat \<Rightarrow> pyfloat \<Rightarrow> pyfloat" where
  "fl_add (Fin x) (Fin y) = fl_of_real (x + y)"
| "fl_add NaN b = NaN"
| "fl_add a NaN = NaN"
| "fl_add PosInf NegInf = NaN"
| "fl_add NegInf PosInf = NaN"
| "fl_add PosInf b = PosInf"
| "fl_add a PosInf = PosInf"
| "fl_add NegInf b = NegInf"
| "fl_add a NegInf = NegInf"

definition fl_sub :: "pyfloat \<Rightarrow> pyfloat \<Rightarrow> pyfloat" where
  "fl_sub a b = fl_add a (fl_neg b)"

text \<open>The quotient by a divisor that is not zero.\<close>

fun fl_div :: "pyfloat \<Rightarrow> pyfloat \<Rightarrow> pyfloat" where
  "fl_div (Fin x) (Fin y) = fl_of_real (x / y)"
| "fl_div NaN b = NaN"
| "fl_div a NaN = NaN"
| "fl_div (Fin x) b = Fin 0"
| "fl_div PosInf (Fin y) = (if 0 < y then PosInf else NegInf)"
| "fl_div NegInf (Fin y) = (if 0 < y then NegInf else PosInf)"
| "fl_div a b = NaN"

text \<open>The comparisons \<^verbatim>\<open><\<close> and \<^verbatim>\<open><=\<close>: false as soon as an operand is NaN.\<close>

fun fl_less :: "pyfloat \<Rightarrow> pyfloat \<Rightarrow> bool" where
  "fl_less (Fin x) (Fin y) = (x < y)"
| "fl_less NaN b = False"
| "fl_less a NaN = False"
| "fl_less a NegInf = False"
| "fl_less PosInf b = False"
| "fl_less a b = True"

fun fl_le :: "pyfloat \<Rightarrow> pyfloat \<Rightarrow> bool" where
  "fl_le (Fin x) (Fin y) = (x \<le> y)"
| "fl_le NaN b = False"
| "fl_le a NaN = False"
| "fl_le NegInf b = True"
| "fl_le a PosInf = True"
| "fl_le a b = False"

text \<open>\<^verbatim>\<open>min(a, b)\<close> is \<open>b\<close> when \<^verbatim>\<open>b < a\<close> and \<open>a\<close> otherwise.\<close>

definition py_min :: "pyfloat \<Rightarrow> pyfloat \<Rightarrow> pyfloat" where
  "py_min a b = (if fl_less b a then b else a)"

datatype pyval =
    PNone
  | PBool bool
  | PInt int
  | PFloat pyfloat
  | PStr string
  | PList "pyval list"
  | PDict "(string \<times> pyval) list"

datatype error =
    FileNotFoundError
  | JSONDecodeError
  | PermissionError
  | UnicodeDecodeError
  | KeyError
  | ValueError
  | TypeError
  | AttributeError
  | ZeroDivisionError
  | OverflowError

text \<open>What \<^verbatim>\<open>open(file_path, 'r')\<close> followed by \<^verbatim>\<open>json.load(f)\<close> does for one path.\<close>

datatype load_outcome = Raises error | Parsed pyval

record PerformanceResult =
  test_name :: pyval
  category :: pyval
  architecture :: pyval
  entity_count :: int
  average_time_us :: pyfloat
  min_time_us :: pyfloat
  max_time_us :: pyfloat
  std_deviation_us :: pyfloat
  entities_per_second :: pyfloat
  memory_usage :: int
  cache_hit_ratio :: pyfloat
  timestamp :: pyval
  platform :: pyval
  build_config :: pyval

text \<open>
  The fields annotated \<^verbatim>\<open>str\<close> hold a \<open>pyval\<close>: the loader stores whatever
  \<^verbatim>\<open>item.get\<close> returns and a dataclass does not check its annotations.
\<close>

record RegressionResult =
  reg_test_name :: pyval
  baseline_performance :: pyfloat
  current_performance :: pyfloat
  change_percentage :: pyfloat
  is_regression :: bool
  is_improvement :: bool
  statistical_significance :: pyfloat
  confidence_level :: pyfloat

text \<open>
  The library and the operating system, as far as the script calls them:
  \<^item> \<open>int_of_str\<close>, \<open>float_of_str\<close>: \<^verbatim>\<open>int(s)\<close> and \<^verbatim>\<open>float(s)\<close> on a string,
    \<open>None\<close> where Python raises ValueError;
  \<^item> \<open>now_isoformat\<close>: \<^verbatim>\<open>datetime.now().isoformat()\<close>, one value for the run (it
    only fills the default of the \<open>timestamp\<close> field);
  \<^item> \<open>str_of\<close>: the text an f-string puts for a value;
  \<^item> \<open>read_json\<close>: opening and parsing the file at a path;
  \<^item> \<open>path_exists\<close>: \<^verbatim>\<open>os.path.exists\<close>;
  \<^item> \<open>write_json_file\<close>, \<open>write_report_file\<close>: the exception raised while the
    output file is opened and written, \<open>None\<close> when the write succeeds;
  \<^item> \<open>text_sections\<close>: the exception, if any, raised by the steps of
    \<^verbatim>\<open>run_analysis\<close> that only derive text and statistics from the loaded
    results (memory analysis, insights, recommendations, summary). Their
    output decides no property below, so they are kept arbitrary: whatever is
    proved holds for every way they can behave.
\<close>

record runtime =
  int_of_str :: "string \<Rightarrow> int option"
  float_of_str :: "string \<Rightarrow> pyfloat option"
  now_isoformat :: string
  str_of :: "pyval \<Rightarrow> string"
  read_json :: "string \<Rightarrow> load_outcome"
  path_exists :: "string \<Rightarrow> bool"
  write_json_file :: "string \<Rightarrow> error option"
  write_report_file :: "string \<Rightarrow> error option"
  text_sections ::
    "PerformanceResult list \<Rightarrow> RegressionResult list \<Rightarrow> RegressionResult list
       \<Rightarrow> error option"

definition bind_err :: "error + 'a \<Rightarrow> ('a \<Rightarrow> error + 'b) \<Rightarrow> error + 'b" where
  "bind_err m f = (case m of Inl e \<Rightarrow> Inl e | Inr v \<Rightarrow> f v)"

section \<open>The result loader\<close>

text \<open>
  \<^verbatim>\<open>int(v)\<close>: a finite float is truncated towards zero, an infinity raises
  OverflowError and NaN raises ValueError. A string is parsed, \<^verbatim>\<open>None\<close>, a list and
  a dictionary raise TypeError.
\<close>

definition py_trunc :: "real \<Rightarrow> int" where
  "py_trunc x = (if 0 \<le> x then \<lfloor>x\<rfloor> else \<lceil>x\<rceil>)"

fun py_int :: "runtime \<Rightarrow> pyval \<Rightarrow> error + int" where
  "py_int rt (PInt i) = Inr i"
| "py_int rt (PBool b) = Inr (if b then 1 else 0)"
| "py_int rt (PFloat (Fin x)) = Inr (py_trunc x)"
| "py_int rt (PFloat NaN) = Inl ValueError"
| "py_int rt (PFloat a) = Inl OverflowError"
| "py_int rt (PStr s) = (case int_of_str rt s of None \<Rightarrow> Inl ValueError | Some i \<Rightarrow> Inr i)"
| "py_int rt PNone = Inl TypeError"
| "py_int rt (PList xs) = Inl TypeError"
| "py_int rt (PDict kvs) = Inl TypeError"

text \<open>
  \<^verbatim>\<open>float(v)\<close>: an integer that rounds to an infinity raises OverflowError, any
  other is converted; a float is returned as it is.
\<close>

fun py_float :: "runtime \<Rightarrow> pyval \<Rightarrow> error + pyfloat" where
  "py_float rt (PInt i) =
     (if overflow_at \<le> \<bar>of_int i\<bar> then Inl OverflowError else Inr (Fin (of_int i)))"
| "py_float rt (PBool b) = Inr (Fin (if b then 1 else 0))"
| "py_float rt (PFloat a) = Inr a"
| "py_float rt (PStr s) = (case float_of_str rt s of None \<Rightarrow> Inl ValueError | Some a \<Rightarrow> Inr a)"
| "py_float rt PNone = Inl TypeError"
| "py_float rt (PList xs) = Inl TypeError"
| "py_float rt (PDict kvs) = Inl TypeError"

text \<open>\<^verbatim>\<open>d.get(k, default)\<close> on a dictionary.\<close>

definition dict_get :: "(string \<times> pyval) list \<Rightarrow> string \<Rightarrow> pyval \<Rightarrow> pyval" where
  "dict_get kvs k d = (case map_of kvs k of None \<Rightarrow> d | Some v \<Rightarrow> v)"

text \<open>
  The body of the inner \<^verbatim>\<open>try\<close>: the keyword arguments of \<^verbatim>\<open>PerformanceResult(...)\<close>
  are evaluated in the order written, so the first coercion that raises decides
  the error. On an item that is not a dictionary the first \<^verbatim>\<open>item.get\<close> raises
  AttributeError.
\<close>

fun make_result :: "runtime \<Rightarrow> pyval \<Rightarrow> error + PerformanceResult" where
  "make_result rt (PDict item) =
     bind_err (py_int rt (dict_get item ''entity_count'' (PInt 0))) (\<lambda>ec.
     bind_err (py_float rt (dict_get item ''real_time'' (dict_get item ''average_time_us'' (PInt 0)))) (\<lambda>avg.
     bind_err (py_float rt (dict_get item ''min_time'' (dict_get item ''min_time_us'' (PInt 0)))) (\<lambda>mn.
     bind_err (py_float rt (dict_get item ''max_time'' (dict_get item ''max_time_us'' (PInt 0)))) (\<lambda>mx.
     bind_err (py_float rt (dict_get item ''stddev'' (dict_get item ''std_deviation_us'' (PInt 0)))) (\<lambda>sd.
     bind_err (py_float rt (dict_get item ''entities_per_second'' (PInt 0))) (\<lambda>eps.
     bind_err (py_int rt (dict_get item ''memory_usage'' (dict_get item ''peak_memory_usage'' (PInt 0)))) (\<lambda>mem.
     bind_err (py_float rt (dict_get item ''cache_hit_ratio'' (PFloat (Fin 0)))) (\<lambda>chr.
     Inr \<lparr> test_name = dict_get item ''name'' (dict_get item ''test_name'' (PStr ''Unknown'')),
           category = dict_get item ''category'' (PStr ''Unknown''),
           architecture = dict_get item ''architecture''
                            (dict_get item ''architecture_type'' (PStr ''Unknown'')),
           entity_count = ec,
           average_time_us = avg,
           min_time_us = mn,
           max_time_us = mx,
           std_deviation_us = sd,
           entities_per_second = eps,
           memory_usage = mem,
           cache_hit_ratio = chr,
           timestamp = dict_get item ''timestamp'' (PStr (now_isoformat rt)),
           platform = dict_get item ''platform'' (PStr ''unknown''),
           build_config = dict_get item ''build_config'' (PStr ''unknown'') \<rparr>))))))))"
| "make_result rt v = Inl AttributeError"

text \<open>The handler \<^verbatim>\<open>except (KeyError, ValueError, TypeError)\<close> of the inner \<^verbatim>\<open>try\<close>.\<close>

fun caught_item :: "error \<Rightarrow> bool" where
  "caught_item KeyError = True"
| "caught_item ValueError = True"
| "caught_item TypeError = True"
| "caught_item e = False"

text \<open>The handler \<^verbatim>\<open>except (FileNotFoundError, json.JSONDecodeError)\<close> of the outer one.\<close>

fun caught_file :: "error \<Rightarrow> bool" where
  "caught_file FileNotFoundError = True"
| "caught_file JSONDecodeError = True"
| "caught_file e = False"

text \<open>A line the loader prints.\<close>

datatype log_line = Warning_item pyval error | Error_loading string error

text \<open>
  The loop \<^verbatim>\<open>for item in benchmark_data\<close>, with the results and the printed lines
  as accumulators. An error that the inner handler does not catch leaves the
  loop; the lines printed until then stay printed.
\<close>

fun load_items ::
  "runtime \<Rightarrow> pyval list \<Rightarrow> PerformanceResult list \<Rightarrow> log_line list
     \<Rightarrow> log_line list \<times> (error + PerformanceResult list)" where
  "load_items rt [] results out = (out, Inr results)"
| "load_items rt (item # items) results out =
     (case make_result rt item of
        Inr result \<Rightarrow> load_items rt items (results @ [result]) out
      | Inl e \<Rightarrow>
          if caught_item e then load_items rt items results (out @ [Warning_item item e])
          else (out, Inl e))"

text \<open>\<^verbatim>\<open>needle in s\<close> on strings: \<open>needle\<close> occurs in \<open>s\<close> as a contiguous run.\<close>

fun starts_with :: "string \<Rightarrow> string \<Rightarrow> bool" where
  "starts_with [] s = True"
| "starts_with (c # cs) [] = False"
| "starts_with (c # cs) (d # ds) = (c = d \<and> starts_with cs ds)"

fun str_contains :: "string \<Rightarrow> string \<Rightarrow> bool" where
  "str_contains needle [] = (needle = [])"
| "str_contains needle (c # cs) = (starts_with needle (c # cs) \<or> str_contains needle cs)"

text \<open>\<^verbatim>\<open>k in data\<close> for a value that is not a list of the first branch.\<close>

fun py_contains :: "string \<Rightarrow> pyval \<Rightarrow> error + bool" where
  "py_contains k (PDict kvs) = Inr (map_of kvs k \<noteq> None)"
| "py_contains k (PStr s) = Inr (str_contains k s)"
| "py_contains k (PList xs) = Inr (PStr k \<in> set xs)"
| "py_contains k v = Inl TypeError"

text \<open>\<^verbatim>\<open>data[k]\<close> with a string key.\<close>

fun py_getitem :: "pyval \<Rightarrow> string \<Rightarrow> error + pyval" where
  "py_getitem (PDict kvs) k = (case map_of kvs k of None \<Rightarrow> Inl KeyError | Some v \<Rightarrow> Inr v)"
| "py_getitem v k = Inl TypeError"

text \<open>
  What \<^verbatim>\<open>for item in benchmark_data\<close> iterates over: the elements of a list, the
  keys of a dictionary, the characters of a string; any other value is not
  iterable.
\<close>

fun py_iter :: "pyval \<Rightarrow> error + pyval list" where
  "py_iter (PList xs) = Inr xs"
| "py_iter (PDict kvs) = Inr (map (\<lambda>kv. PStr (fst kv)) kvs)"
| "py_iter (PStr s) = Inr (map (\<lambda>c. PStr [c]) s)"
| "py_iter v = Inl TypeError"

text \<open>The chain \<^verbatim>\<open>if isinstance(data, list) ... elif ... else\<close>.\<close>

fun is_list :: "pyval \<Rightarrow> bool" where
  "is_list (PList xs) = True"
| "is_list v = False"

definition benchmark_data :: "pyval \<Rightarrow> error + pyval" where
  "benchmark_data data =
     (if is_list data then Inr data
      else bind_err (py_contains ''benchmarks'' data) (\<lambda>has_b.
        if has_b then py_getitem data ''benchmarks''
        else bind_err (py_contains ''results'' data) (\<lambda>has_r.
          if has_r then py_getitem data ''results''
          else Inr (PList [data]))))"

text \<open>
  The body of the outer \<^verbatim>\<open>try\<close> once the file is parsed, and \<^verbatim>\<open>load_results\<close>
  itself: the pair of the lines printed and either the list returned or the
  exception that leaves the method.
\<close>

definition load_parsed ::
  "runtime \<Rightarrow> pyval \<Rightarrow> log_line list \<times> (error + PerformanceResult list)" where
  "load_parsed rt data =
     (case bind_err (benchmark_data data) py_iter of
        Inl e \<Rightarrow> ([], Inl e)
      | Inr items \<Rightarrow> load_items rt items [] [])"

definition load_results ::
  "runtime \<Rightarrow> string \<Rightarrow> log_line list \<times> (error + PerformanceResult list)" where
  "load_results rt file_path =
     (let (out, r) = (case read_json rt file_path of
                        Raises e \<Rightarrow> ([], Inl e)
                      | Parsed data \<Rightarrow> load_parsed rt data)
      in case r of
           Inr results \<Rightarrow> (out, Inr results)
         | Inl e \<Rightarrow> if caught_file e then (out @ [Error_loading file_path e], Inr [])
                    else (out, Inl e))"

section \<open>The regression detector\<close>

text \<open>Float division raises on a zero divisor, of either sign.\<close>

definition py_truediv :: "pyfloat \<Rightarrow> pyfloat \<Rightarrow> error + pyfloat" where
  "py_truediv a b = (if b = Fin 0 then Inl ZeroDivisionError else Inr (fl_div a b))"

text \<open>\<^verbatim>\<open>x ** 2\<close>: OverflowError when the square of a finite value overflows.\<close>

fun py_square :: "pyfloat \<Rightarrow> error + pyfloat" where
  "py_square (Fin x) = (if overflow_at \<le> x ^ 2 then Inl OverflowError else Inr (Fin (x ^ 2)))"
| "py_square NaN = Inr NaN"
| "py_square a = Inr PosInf"

text \<open>
  \<^verbatim>\<open>x ** 0.5\<close>. On a negative finite base Python returns a complex number; the
  lines that follow divide by it and then \<^verbatim>\<open>min(0.99, ...)\<close> raises TypeError on
  it, which is the outcome given here.
\<close>

fun py_root :: "pyfloat \<Rightarrow> error + pyfloat" where
  "py_root (Fin x) = (if x < 0 then Inl TypeError else Inr (Fin (sqrt x)))"
| "py_root NaN = Inr NaN"
| "py_root a = Inr PosInf"

text \<open>The key \<^verbatim>\<open>f"{r.test_name}_{r.architecture}_{r.entity_count}"\<close>.\<close>

definition result_key :: "runtime \<Rightarrow> PerformanceResult \<Rightarrow> string" where
  "result_key rt r =
     str_of rt (test_name r) @ ''_'' @ str_of rt (architecture r) @ ''_''
       @ str_of rt (PInt (entity_count r))"

text \<open>The dictionary \<^verbatim>\<open>baseline_lookup\<close>: a later record replaces an earlier one.\<close>

definition baseline_lookup ::
  "runtime \<Rightarrow> PerformanceResult list \<Rightarrow> (string \<rightharpoonup> PerformanceResult)" where
  "baseline_lookup rt bs = foldl (\<lambda>m r. m(result_key rt r \<mapsto> r)) Map.empty bs"

text \<open>
  The body of the second loop from \<^verbatim>\<open>baseline_perf = ...\<close> to the construction of
  the \<^verbatim>\<open>RegressionResult\<close>, for a current record and the baseline record found
  under its key. \<open>Inr None\<close> is the \<^verbatim>\<open>continue\<close> on a zero baseline. Every
  division goes through \<open>py_truediv\<close> and every power through \<open>py_square\<close> and
  \<open>py_root\<close>, in the order Python evaluates them.
\<close>

definition compare_pair ::
  "pyfloat \<Rightarrow> PerformanceResult \<Rightarrow> PerformanceResult \<Rightarrow> error + RegressionResult option" where
  "compare_pair regression_threshold baseline_result current_result =
     (let baseline_perf = average_time_us baseline_result;
          current_perf = average_time_us current_result
      in if baseline_perf = Fin 0 then Inr None
         else
           bind_err (py_truediv (fl_sub current_perf baseline_perf) baseline_perf) (\<lambda>change.
           bind_err (if fl_less (Fin 0) baseline_perf
                     then py_truediv (std_deviation_us baseline_result) baseline_perf
                     else Inr (Fin 0)) (\<lambda>baseline_cv.
           bind_err (if fl_less (Fin 0) current_perf
                     then py_truediv (std_deviation_us current_result) current_perf
                     else Inr (Fin 0)) (\<lambda>current_cv.
           bind_err (py_square baseline_cv) (\<lambda>baseline_sq.
           bind_err (py_square current_cv) (\<lambda>current_sq.
           bind_err (py_root (fl_add baseline_sq current_sq)) (\<lambda>combined_variance.
           bind_err (py_truediv (fl_abs change)
                       (fl_add combined_variance (Fin (1 / 10 ^ 10)))) (\<lambda>significance.
           bind_err (py_truediv significance (Fin 3)) (\<lambda>third.
           let confidence = py_min (Fin (99 / 100)) third in
           Inr (Some \<lparr> reg_test_name = test_name current_result,
                       baseline_performance = baseline_perf,
                       current_performance = current_perf,
                       change_percentage = change,
                       is_regression = fl_less regression_threshold change,
                       is_improvement = fl_less change (fl_neg regression_threshold),
                       statistical_significance = significance,
                       confidence_level = confidence \<rparr>))))))))))"

text \<open>
  The loop \<^verbatim>\<open>for current_result in current\<close>, with the two output lists as
  accumulators.
\<close>

fun detect_loop ::
  "runtime \<Rightarrow> pyfloat \<Rightarrow> (string \<rightharpoonup> PerformanceResult) \<Rightarrow> PerformanceResult list
     \<Rightarrow> RegressionResult list \<Rightarrow> RegressionResult list
     \<Rightarrow> error + (RegressionResult list \<times> RegressionResult list)" where
  "detect_loop rt thr lookup [] regs imps = Inr (regs, imps)"
| "detect_loop rt thr lookup (c # cs) regs imps =
     (case lookup (result_key rt c) of
        None \<Rightarrow> detect_loop rt thr lookup cs regs imps
      | Some b \<Rightarrow>
          (case compare_pair thr b c of
             Inl e \<Rightarrow> Inl e
           | Inr None \<Rightarrow> detect_loop rt thr lookup cs regs imps
           | Inr (Some r) \<Rightarrow>
               if is_regression r \<and> fl_less (Fin (1 / 2)) (confidence_level r)
               then detect_loop rt thr lookup cs (regs @ [r]) imps
               else if is_improvement r \<and> fl_less (Fin (1 / 2)) (confidence_level r)
               then detect_loop rt thr lookup cs regs (imps @ [r])
               else detect_loop rt thr lookup cs regs imps))"

text \<open>
  \<^verbatim>\<open>list.sort(key=...)\<close> compares keys with \<^verbatim>\<open><\<close> and is stable: on keys without
  NaN the result is the ascending order in which elements with equal keys keep
  their places, which this insertion sort computes. (With a NaN among the keys
  the order Python leaves depends on how it merges; the detector sorts no NaN,
  as shown below.) With \<^verbatim>\<open>reverse=True\<close> the list is reversed, sorted and
  reversed again.
\<close>

fun insort_lt :: "('a \<Rightarrow> pyfloat) \<Rightarrow> 'a \<Rightarrow> 'a list \<Rightarrow> 'a list" where
  "insort_lt k x [] = [x]"
| "insort_lt k x (y # ys) = (if fl_less (k y) (k x) then y # insort_lt k x ys else x # y # ys)"

definition py_sort :: "('a \<Rightarrow> pyfloat) \<Rightarrow> 'a list \<Rightarrow> 'a list" where
  "py_sort k xs = foldr (insort_lt k) xs []"

definition sort_reverse :: "('a \<Rightarrow> pyfloat) \<Rightarrow> 'a list \<Rightarrow> 'a list" where
  "sort_reverse k xs = rev (py_sort k (rev xs))"

definition detect_regressions ::
  "runtime \<Rightarrow> pyfloat \<Rightarrow> PerformanceResult list \<Rightarrow> PerformanceResult list
     \<Rightarrow> error + (RegressionResult list \<times> RegressionResult list)" where
  "detect_regressions rt thr bs cs =
     bind_err (detect_loop rt thr (baseline_lookup rt bs) cs [] []) (\<lambda>(regs, imps).
       Inr (sort_reverse change_percentage regs, py_sort change_percentage imps))"

section \<open>The analysis run and the command line\<close>

record PerformanceAnalysis =
  regressions :: "RegressionResult list"
  improvements :: "RegressionResult list"
  total_tests :: nat
  regressions_detected :: nat
  improvements_detected :: nat
  has_baseline :: bool

text \<open>The first loop of \<^verbatim>\<open>run_analysis\<close>: an exception leaving the loader ends it.\<close>

fun load_current ::
  "runtime \<Rightarrow> string list \<Rightarrow> PerformanceResult list \<Rightarrow> error + PerformanceResult list" where
  "load_current rt [] acc = Inr acc"
| "load_current rt (file_path # rest) acc =
     (case snd (load_results rt file_path) of
        Inl e \<Rightarrow> Inl e
      | Inr results \<Rightarrow> load_current rt rest (acc @ results))"

text \<open>
  The baseline part of \<^verbatim>\<open>run_analysis\<close>: the baseline results kept on the analyzer
  (empty on a fresh one) and the two lists. \<^verbatim>\<open>if baseline_file and ...\<close> needs a
  path that is neither \<^verbatim>\<open>None\<close> nor empty.
\<close>

definition load_baseline ::
  "runtime \<Rightarrow> pyfloat \<Rightarrow> string option \<Rightarrow> PerformanceResult list
     \<Rightarrow> error + (PerformanceResult list \<times> RegressionResult list \<times> RegressionResult list)" where
  "load_baseline rt thr baseline_file current_results =
     (case baseline_file of
        None \<Rightarrow> Inr ([], [], [])
      | Some bf \<Rightarrow>
          if bf \<noteq> [] \<and> path_exists rt bf then
            bind_err (snd (load_results rt bf)) (\<lambda>baseline_results.
              if baseline_results \<noteq> [] then
                bind_err (detect_regressions rt thr baseline_results current_results)
                  (\<lambda>(regs, imps). Inr (baseline_results, regs, imps))
              else Inr (baseline_results, [], []))
          else Inr ([], [], []))"

definition run_analysis ::
  "runtime \<Rightarrow> pyfloat \<Rightarrow> string list \<Rightarrow> string option \<Rightarrow> error + PerformanceAnalysis" where
  "run_analysis rt thr current_files baseline_file =
     bind_err (load_current rt current_files []) (\<lambda>current_results.
       if current_results = [] then Inl ValueError
       else
         bind_err (load_baseline rt thr baseline_file current_results)
           (\<lambda>(baseline_results, regs, imps).
              case text_sections rt current_results regs imps of
                Some e \<Rightarrow> Inl e
              | None \<Rightarrow>
                  Inr \<lparr> regressions = regs,
                        improvements = imps,
                        total_tests = length current_results,
                        regressions_detected = length regs,
                        improvements_detected = length imps,
                        has_baseline = (baseline_file \<noteq> None \<and> baseline_results \<noteq> []) \<rparr>))"

text \<open>The parsed command line; \<^verbatim>\<open>--threshold\<close> is read with \<^verbatim>\<open>float\<close>.\<close>

record cli_args =
  arg_current :: "string list"
  arg_baseline :: "string option"
  arg_output :: string
  arg_report :: "string option"
  arg_threshold :: pyfloat

text \<open>An output file the process tried to write, and whether the write succeeded.\<close>

datatype write_attempt = Export_json string bool | Report_markdown string bool

text \<open>
  \<^verbatim>\<open>main\<close> after argument parsing: the exit code and the writes attempted, in
  order. \<^verbatim>\<open>exit(n)\<close> raises SystemExit, which \<^verbatim>\<open>except Exception\<close> does not catch;
  every other exception reaches that handler and the process exits with 2.
\<close>

definition main :: "runtime \<Rightarrow> cli_args \<Rightarrow> nat \<times> write_attempt list" where
  "main rt args =
     (case run_analysis rt (arg_threshold args) (arg_current args) (arg_baseline args) of
        Inl e \<Rightarrow> (2, [])
      | Inr analysis \<Rightarrow>
          (case write_json_file rt (arg_output args) of
             Some e \<Rightarrow> (2, [Export_json (arg_output args) False])
           | None \<Rightarrow>
               (let code = (if regressions_detected analysis > 0 then 1 else 0) in
                case arg_report args of
                  None \<Rightarrow> (code, [Export_json (arg_output args) True])
                | Some rf \<Rightarrow>
                    if rf = [] then (code, [Export_json (arg_output args) True])
                    else
                      (case write_report_file rt rf of
                         Some e \<Rightarrow> (2, [Export_json (arg_output args) True,
                                         Report_markdown rf False])
                       | None \<Rightarrow> (code, [Export_json (arg_output args) True,
                                         Report_markdown rf True])))))"

section \<open>Quantities named by the specification, and sample data\<close>

text \<open>The relative change of a matched pair, in float arithmetic.\<close>

definition pair_change :: "PerformanceResult \<Rightarrow> PerformanceResult \<Rightarrow> pyfloat" where
  "pair_change b c =
     fl_div (fl_sub (average_time_us c) (average_time_us b)) (average_time_us b)"

text \<open>The coefficient of variation with the guard of the code: zero unless the mean is positive.\<close>

definition guarded_cv :: "pyfloat \<Rightarrow> pyfloat \<Rightarrow> pyfloat" where
  "guarded_cv stdev mean = (if fl_less (Fin 0) mean then fl_div stdev mean else Fin 0)"

text \<open>The square root of the sum of the squares of two coefficients of variation.\<close>

definition combine_cv :: "pyfloat \<Rightarrow> pyfloat \<Rightarrow> error + pyfloat" where
  "combine_cv cv_b cv_c =
     bind_err (py_square cv_b) (\<lambda>sq_b.
     bind_err (py_square cv_c) (\<lambda>sq_c. py_root (fl_add sq_b sq_c)))"

definition pair_combined :: "PerformanceResult \<Rightarrow> PerformanceResult \<Rightarrow> error + pyfloat" where
  "pair_combined b c =
     combine_cv (guarded_cv (std_deviation_us b) (average_time_us b))
                (guarded_cv (std_deviation_us c) (average_time_us c))"

text \<open>The significance of a change against a combined coefficient of variation.\<close>

definition significance_of :: "pyfloat \<Rightarrow> pyfloat \<Rightarrow> pyfloat" where
  "significance_of change combined =
     fl_div (fl_abs change) (fl_add combined (Fin (1 / 10 ^ 10)))"

text \<open>Neither square of the two coefficients of variation overflows.\<close>

definition squares_fit :: "PerformanceResult \<Rightarrow> PerformanceResult \<Rightarrow> bool" where
  "squares_fit b c \<longleftrightarrow>
     \<not> isl (py_square (guarded_cv (std_deviation_us b) (average_time_us b)))
     \<and> \<not> isl (py_square (guarded_cv (std_deviation_us c) (average_time_us c)))"

text \<open>
  The squares fit for every current record that the lookup matches to a
  baseline record whose average is not zero.
\<close>

definition matched_fit ::
  "runtime \<Rightarrow> (string \<rightharpoonup> PerformanceResult) \<Rightarrow> PerformanceResult list \<Rightarrow> bool" where
  "matched_fit rt lookup cs =
     list_all (\<lambda>c. case lookup (result_key rt c) of
                      None \<Rightarrow> True
                    | Some b \<Rightarrow> average_time_us b = Fin 0 \<or> squares_fit b c) cs"

text \<open>A float that is not below zero: NaN and the positive infinity included.\<close>

fun not_negative :: "pyfloat \<Rightarrow> bool" where
  "not_negative (Fin x) = (0 \<le> x)"
| "not_negative NegInf = False"
| "not_negative a = True"

text \<open>A record with the fields that the detector reads; the others hold the loader's defaults.\<close>

definition sample_result :: "string \<Rightarrow> string \<Rightarrow> int \<Rightarrow> real \<Rightarrow> real \<Rightarrow> PerformanceResult" where
  "sample_result name arch n avg sd =
     \<lparr> test_name = PStr name, category = PStr ''Unknown'', architecture = PStr arch,
       entity_count = n, average_time_us = Fin avg, min_time_us = Fin 0, max_time_us = Fin 0,
       std_deviation_us = Fin sd, entities_per_second = Fin 0, memory_usage = 0,
       cache_hit_ratio = Fin 0, timestamp = PStr ''2024-01-01T00:00:00'',
       platform = PStr ''unknown'', build_config = PStr ''unknown'' \<rparr>"

text \<open>
  The coefficient of variation and the significance as the specification words
  them: zero when the mean is zero, the quotient otherwise.
\<close>

definition spec_cv :: "pyfloat \<Rightarrow> pyfloat \<Rightarrow> pyfloat" where
  "spec_cv stdev mean = (if mean = Fin 0 then Fin 0 else fl_div stdev mean)"

definition spec_significance :: "PerformanceResult \<Rightarrow> PerformanceResult \<Rightarrow> error + pyfloat" where
  "spec_significance b c =
     bind_err (combine_cv (spec_cv (std_deviation_us b) (average_time_us b))
                          (spec_cv (std_deviation_us c) (average_time_us c)))
       (\<lambda>combined. Inr (significance_of (pair_change b c) combined))"

text \<open>
  A runtime for the examples. Strings print as themselves, integers in decimal,
  \<^verbatim>\<open>None\<close> and the booleans by name; floats, lists and dictionaries, which no
  example formats, print as the empty string. No file exists and every write
  succeeds.
\<close>

fun decimal :: "nat \<Rightarrow> string" where
  "decimal n =
     (if n < 10 then [''0123456789'' ! n]
      else decimal (n div 10) @ [''0123456789'' ! (n mod 10)])"

declare decimal.simps [simp del]

fun sample_str_of :: "pyval \<Rightarrow> string" where
  "sample_str_of (PStr s) = s"
| "sample_str_of (PInt i) = (if i < 0 then ''-'' @ decimal (nat (- i)) else decimal (nat i))"
| "sample_str_of PNone = ''None''"
| "sample_str_of (PBool b) = (if b then ''True'' else ''False'')"
| "sample_str_of v = []"

definition sample_runtime :: runtime where
  "sample_runtime =
     \<lparr> int_of_str = (\<lambda>s. None), float_of_str = (\<lambda>s. None),
       now_isoformat = ''2024-01-01T00:00:00'', str_of = sample_str_of,
       read_json = (\<lambda>p. Raises FileNotFoundError), path_exists = (\<lambda>p. False),
       write_json_file = (\<lambda>p. None), write_report_file = (\<lambda>p. None),
       text_sections = (\<lambda>cs regs imps. None) \<rparr>"

text \<open>
  A comparison the detector may report: confident, on a baseline that is not
  zero, with a change that is a number.
\<close>

definition kept :: "RegressionResult \<Rightarrow> bool" where
  "kept r \<longleftrightarrow> fl_less (Fin (1 / 2)) (confidence_level r)
            \<and> baseline_performance r \<noteq> Fin 0 \<and> change_percentage r \<noteq> NaN"

section \<open>Vocabulary for the loader's properties\<close>

fun is_dict :: "pyval \<Rightarrow> bool" where
  "is_dict (PDict kvs) = True"
| "is_dict v = False"

text \<open>
  The numeric fields of a record: the keys tried in order, and the coercion
  applied to the value found (or to the default 0 when no key is present).
\<close>

datatype coercion = As_int | As_float

definition numeric_fields :: "(string list \<times> coercion) list" where
  "numeric_fields =
     [([''entity_count''], As_int),
      ([''real_time'', ''average_time_us''], As_float),
      ([''min_time'', ''min_time_us''], As_float),
      ([''max_time'', ''max_time_us''], As_float),
      ([''stddev'', ''std_deviation_us''], As_float),
      ([''entities_per_second''], As_float),
      ([''memory_usage'', ''peak_memory_usage''], As_int),
      ([''cache_hit_ratio''], As_float)]"

fun first_present :: "(string \<times> pyval) list \<Rightarrow> string list \<Rightarrow> pyval option" where
  "first_present item [] = None"
| "first_present item (k # ks) =
     (case map_of item k of Some v \<Rightarrow> Some v | None \<Rightarrow> first_present item ks)"

text \<open>The value read for a field: the first key present, or the default.\<close>

definition field_value :: "(string \<times> pyval) list \<Rightarrow> string list \<Rightarrow> pyval \<Rightarrow> pyval" where
  "field_value item keys d = (case first_present item keys of None \<Rightarrow> d | Some v \<Rightarrow> v)"

text \<open>The error, if any, that the coercion raises on the value.\<close>

fun coercion_error :: "runtime \<Rightarrow> coercion \<Rightarrow> pyval \<Rightarrow> error option" where
  "coercion_error rt As_int v = (case py_int rt v of Inl e \<Rightarrow> Some e | Inr i \<Rightarrow> None)"
| "coercion_error rt As_float v = (case py_float rt v of Inl e \<Rightarrow> Some e | Inr a \<Rightarrow> None)"

text \<open>
  A key of the field is present and the coercion of its value raises an error
  that the handler of the loop catches (ValueError or TypeError).
\<close>

definition uncoercible_field :: "runtime \<Rightarrow> (string \<times> pyval) list \<Rightarrow> string list \<times> coercion \<Rightarrow> bool" where
  "uncoercible_field rt item f =
     (case first_present item (fst f) of
        None \<Rightarrow> False
      | Some v \<Rightarrow> (case coercion_error rt (snd f) v of
                    None \<Rightarrow> False
                  | Some e \<Rightarrow> caught_item e))"

text \<open>
  A key of the field is present and the coercion of its value raises
  OverflowError: an integer too large for a float, or an infinite float given
  to \<^verbatim>\<open>int\<close>.
\<close>

definition overflow_field :: "runtime \<Rightarrow> (string \<times> pyval) list \<Rightarrow> string list \<times> coercion \<Rightarrow> bool" where
  "overflow_field rt item f =
     (case first_present item (fst f) of
        None \<Rightarrow> False
      | Some v \<Rightarrow> coercion_error rt (snd f) v = Some OverflowError)"

definition missing_field :: "(string \<times> pyval) list \<Rightarrow> string list \<times> coercion \<Rightarrow> bool" where
  "missing_field item f = (first_present item (fst f) = None)"

text \<open>An entry with a present numeric field that cannot be coerced.\<close>

fun uncoercible :: "runtime \<Rightarrow> pyval \<Rightarrow> bool" where
  "uncoercible rt (PDict item) = list_ex (uncoercible_field rt item) numeric_fields"
| "uncoercible rt v = False"

text \<open>An entry with a present numeric field whose coercion overflows.\<close>

fun overflowing :: "runtime \<Rightarrow> pyval \<Rightarrow> bool" where
  "overflowing rt (PDict item) = list_ex (overflow_field rt item) numeric_fields"
| "overflowing rt v = False"

text \<open>
  The entries the specification counts as skipped: a numeric field is missing
  or cannot be coerced.
\<close>

fun spec_skipped :: "runtime \<Rightarrow> pyval \<Rightarrow> bool" where
  "spec_skipped rt (PDict item) =
     list_ex (\<lambda>f. missing_field item f \<or> uncoercible_field rt item f
                  \<or> overflow_field rt item f) numeric_fields"
| "spec_skipped rt v = False"

text \<open>Parsed files for the examples, and a runtime that reads them.\<close>

definition sample_files :: "string \<Rightarrow> load_outcome" where
  "sample_files p =
     (if p = ''defaults.json'' then Parsed (PList [PDict [(''name'', PStr ''t'')]])
      else if p = ''mixed.json'' then
        Parsed (PDict [(''results'',
          PList [PDict [(''name'', PStr ''a''), (''real_time'', PInt 45)],
                 PDict [(''name'', PStr ''b''), (''entity_count'', PStr ''many'')],
                 PDict [(''name'', PStr ''c''), (''real_time'', PNone)]])])
      else if p = ''negative.json'' then
        Parsed (PList [PDict [(''name'', PStr ''t''), (''real_time'', PInt (- 5)),
                               (''min_time'', PInt 1), (''max_time'', PInt 2)]])
      else if p = ''both.json'' then
        Parsed (PDict [(''benchmarks'', PList [PDict [(''name'', PStr ''a'')]]),
                       (''results'', PList [PDict [(''name'', PStr ''b'')],
                                            PDict [(''name'', PStr ''c'')]])])
      else if p = ''numbers.json'' then Parsed (PList [PInt 1])
      else if p = ''infinite.json'' then
        Parsed (PDict [(''name'', PStr ''t''), (''entity_count'', PFloat PosInf)])
      else if p = ''current.json'' then
        Parsed (PList [PDict [(''name'', PStr ''create_entity''),
                               (''architecture'', PStr ''archetype''),
                               (''entity_count'', PInt 1000), (''average_time_us'', PInt 54)]])
      else if p = ''baseline.json'' then
        Parsed (PList [PDict [(''name'', PStr ''create_entity''),
                               (''architecture'', PStr ''archetype''),
                               (''entity_count'', PInt 1000), (''average_time_us'', PInt 45)]])
      else if p = ''broken.json'' then Raises JSONDecodeError
      else Raises FileNotFoundError)"

definition sample_disk :: runtime where
  "sample_disk = sample_runtime \<lparr> read_json := sample_files,
     path_exists := (\<lambda>p. p \<in> set [''baseline.json'', ''current.json'']) \<rparr>"

text \<open>Every output file that \<open>main\<close> is asked for can be written.\<close>

definition writes_succeed :: "runtime \<Rightarrow> cli_args \<Rightarrow> bool" where
  "writes_succeed rt args \<longleftrightarrow>
     write_json_file rt (arg_output args) = None
     \<and> (case arg_report args of
          None \<Rightarrow> True
        | Some rf \<Rightarrow> rf = [] \<or> write_report_file rt rf = None)"

text \<open>A command line over the sample files, and the analysis it yields.\<close>

definition sample_args :: cli_args where
  "sample_args =
     \<lparr> arg_current = [''current.json''], arg_baseline = Some ''baseline.json'',
       arg_output = ''analysis.json'', arg_report = Some ''report.md'',
       arg_threshold = Fin (1 / 20) \<rparr>"

definition sample_analysis :: PerformanceAnalysis where
  "sample_analysis =
     \<lparr> regressions =
         [\<lparr> reg_test_name = PStr ''create_entity'', baseline_performance = Fin 45,
            current_performance = Fin 54, change_percentage = Fin (1 / 5),
            is_regression = True, is_improvement = False,
            statistical_significance = Fin (2 * 10 ^ 9),
            confidence_level = Fin (99 / 100) \<rparr>],
       improvements = [], total_tests = 1, regressions_detected = 1,
       improvements_detected = 0, has_baseline = True \<rparr>"

section \<open>Properties of the float operations\<close>

lemma bind_err_Inr [simp]: "bind_err (Inr v) f = f v"
  by (simp add: bind_err_def)

lemma bind_err_Inl [simp]: "bind_err (Inl e) f = Inl e"
  by (simp add: bind_err_def)

lemma bind_err_eq_Inl:
  "bind_err m f = Inl e \<longleftrightarrow> m = Inl e \<or> (\<exists>v. m = Inr v \<and> f v = Inl e)"
  by (cases m) simp_all

lemma bind_err_eq_Inr:
  "bind_err m f = Inr y \<longleftrightarrow> (\<exists>v. m = Inr v \<and> f v = Inr y)"
  by (cases m) simp_all

lemma isl_bind_err: "isl (bind_err m f) \<longleftrightarrow> isl m \<or> isl (f (projr m))"
  by (cases m) simp_all

lemma overflow_at_bounds: "10 ^ 300 < overflow_at" "overflow_at < 10 ^ 309"
  by (simp_all add: overflow_at_def)

lemma overflow_at_gt_1: "1 < overflow_at"
proof -
  have "(1::real) \<le> 10 ^ 300" by (rule one_le_power) simp
  then show ?thesis using overflow_at_bounds(1) by (rule le_less_trans)
qed

lemma overflow_at_pos: "0 < overflow_at"
  using overflow_at_gt_1 by simp

lemma fl_of_real_fits: "\<bar>x\<bar> \<le> 10 ^ 300 \<Longrightarrow> fl_of_real x = Fin x"
  using overflow_at_bounds(1) by (auto simp: fl_of_real_def)

lemma fl_of_real_small: "\<bar>x\<bar> \<le> 10 ^ 20 \<Longrightarrow> fl_of_real x = Fin x"
proof -
  assume "\<bar>x\<bar> \<le> 10 ^ 20"
  moreover have "(10::real) ^ 20 \<le> 10 ^ 300" by (rule power_increasing) simp_all
  ultimately have "\<bar>x\<bar> \<le> 10 ^ 300" by (rule order_trans)
  then show ?thesis by (rule fl_of_real_fits)
qed

lemma fl_of_real_nonneg: "0 \<le> x \<Longrightarrow> not_negative (fl_of_real x)"
  using overflow_at_pos by (auto simp: fl_of_real_def)

lemma py_square_nonneg: "py_square a = Inr s \<Longrightarrow> not_negative s"
  by (cases a) (auto split: if_splits)

lemma py_square_error: "py_square a = Inl e \<Longrightarrow> e = OverflowError"
  by (cases a) (auto split: if_splits)

lemma fl_add_nonneg: "not_negative s \<Longrightarrow> not_negative t \<Longrightarrow> not_negative (fl_add s t)"
  by (cases s; cases t) (auto simp: fl_of_real_nonneg)

lemma py_root_nonneg: "not_negative s \<Longrightarrow> \<exists>r. py_root s = Inr r \<and> not_negative r"
  by (cases s) auto

lemma add_epsilon_nonzero: "not_negative r \<Longrightarrow> fl_add r (Fin (1 / 10 ^ 10)) \<noteq> Fin 0"
proof (cases r)
  case (Fin x)
  assume "not_negative r"
  with Fin have "0 < x + 1 / 10 ^ 10" by (simp add: add_nonneg_pos)
  then show ?thesis using Fin by (auto simp: fl_of_real_def)
qed simp_all

text \<open>Combining two coefficients of variation overflows or gives a float that is not negative.\<close>

lemma combine_cv_cases:
  "(combine_cv x y = Inl OverflowError \<and> (isl (py_square x) \<or> isl (py_square y)))
   \<or> (\<exists>comb. combine_cv x y = Inr comb \<and> not_negative comb
         \<and> \<not> isl (py_square x) \<and> \<not> isl (py_square y))"
proof (cases "py_square x")
  case (Inl e)
  then show ?thesis using py_square_error [OF Inl] by (simp add: combine_cv_def)
next
  case sx: (Inr s)
  show ?thesis
  proof (cases "py_square y")
    case (Inl e)
    then show ?thesis using sx py_square_error [OF Inl] by (simp add: combine_cv_def)
  next
    case sy: (Inr t)
    have "not_negative (fl_add s t)"
      using sx sy by (intro fl_add_nonneg py_square_nonneg)
    from py_root_nonneg [OF this] show ?thesis
      using sx sy by (auto simp: combine_cv_def)
  qed
qed

section \<open>Properties of the detector\<close>

text \<open>
  On a baseline that is not zero no division raises: the comparison is this
  record, unless a square overflows.
\<close>

lemma compare_pair_nonzero:
  assumes "average_time_us b \<noteq> Fin 0"
  shows "compare_pair thr b c =
     bind_err (pair_combined b c) (\<lambda>combined.
       Inr (Some \<lparr> reg_test_name = test_name c,
                   baseline_performance = average_time_us b,
                   current_performance = average_time_us c,
                   change_percentage = pair_change b c,
                   is_regression = fl_less thr (pair_change b c),
                   is_improvement = fl_less (pair_change b c) (fl_neg thr),
                   statistical_significance = significance_of (pair_change b c) combined,
                   confidence_level =
                     py_min (Fin (99 / 100))
                       (fl_div (significance_of (pair_change b c) combined) (Fin 3)) \<rparr>))"
proof -
  have change: "py_truediv (fl_sub (average_time_us c) (average_time_us b)) (average_time_us b)
                  = Inr (pair_change b c)"
    using assms by (simp add: py_truediv_def pair_change_def)
  have bcv: "(if fl_less (Fin 0) (average_time_us b)
              then py_truediv (std_deviation_us b) (average_time_us b) else Inr (Fin 0))
               = Inr (guarded_cv (std_deviation_us b) (average_time_us b))"
    using assms by (simp add: py_truediv_def guarded_cv_def)
  have ccv: "(if fl_less (Fin 0) (average_time_us c)
              then py_truediv (std_deviation_us c) (average_time_us c) else Inr (Fin 0))
               = Inr (guarded_cv (std_deviation_us c) (average_time_us c))"
    by (auto simp: py_truediv_def guarded_cv_def)
  have sig: "py_truediv (fl_abs (pair_change b c)) (fl_add comb (Fin (1 / 10 ^ 10)))
               = Inr (significance_of (pair_change b c) comb)"
    if "not_negative comb" for comb
    using add_epsilon_nonzero [OF that] by (simp add: py_truediv_def significance_of_def)
  have third: "py_truediv x (Fin 3) = Inr (fl_div x (Fin 3))" for x
    by (simp add: py_truediv_def)
  show ?thesis
  proof (cases "pair_combined b c")
    case (Inl e)
    then show ?thesis
      unfolding compare_pair_def Let_def
      by (simp only: assms if_False change bcv ccv bind_err_Inr)
         (auto simp: pair_combined_def combine_cv_def bind_err_eq_Inl)
  next
    case (Inr comb)
    then obtain sb sc where sb: "py_square (guarded_cv (std_deviation_us b) (average_time_us b)) = Inr sb"
      and sc: "py_square (guarded_cv (std_deviation_us c) (average_time_us c)) = Inr sc"
      and root: "py_root (fl_add sb sc) = Inr comb"
      by (auto simp: pair_combined_def combine_cv_def bind_err_eq_Inr)
    from combine_cv_cases [of "guarded_cv (std_deviation_us b) (average_time_us b)"
        "guarded_cv (std_deviation_us c) (average_time_us c)"] Inr
    have nn: "not_negative comb" by (auto simp: pair_combined_def)
    show ?thesis
      unfolding compare_pair_def Let_def
      by (simp only: assms if_False change bcv ccv sb sc root bind_err_Inr Inr sig [OF nn] third)
  qed
qed

lemma compare_pair_zero: "average_time_us b = Fin 0 \<Longrightarrow> compare_pair thr b c = Inr None"
  by (simp add: compare_pair_def)

lemma fl_less_le: "fl_less a b \<Longrightarrow> fl_le a b"
  by (cases a; cases b) auto

lemma flags_exclusive:
  "fl_le (Fin 0) thr \<Longrightarrow> \<not> (fl_less thr ch \<and> fl_less ch (fl_neg thr))"
  by (cases thr; cases ch) auto

lemma flags_small:
  "fl_le (fl_abs ch) thr \<Longrightarrow> \<not> fl_less thr ch \<and> \<not> fl_less ch (fl_neg thr)"
  by (cases thr; cases ch) auto

lemma change_of_equal:
  assumes "fl_less (Fin 0) a"
  shows "fl_div (fl_sub a a) a = (if a = PosInf then NaN else Fin 0)"
  using assms by (cases a) (auto simp: fl_sub_def fl_of_real_small)

lemma compare_pair_result:
  assumes "average_time_us b \<noteq> Fin 0"
  shows "(squares_fit b c \<longrightarrow> (\<exists>comb. pair_combined b c = Inr comb))
       \<and> (\<not> squares_fit b c \<longrightarrow> compare_pair thr b c = Inl OverflowError)
       \<and> (\<forall>r. compare_pair thr b c = Inr (Some r) \<longrightarrow>
            (\<exists>comb. pair_combined b c = Inr comb
               \<and> r = \<lparr> reg_test_name = test_name c,
                   baseline_performance = average_time_us b,
                   current_performance = average_time_us c,
                   change_percentage = pair_change b c,
                   is_regression = fl_less thr (pair_change b c),
                   is_improvement = fl_less (pair_change b c) (fl_neg thr),
                   statistical_significance = significance_of (pair_change b c) comb,
                   confidence_level =
                     py_min (Fin (99 / 100))
                       (fl_div (significance_of (pair_change b c) comb) (Fin 3)) \<rparr>))"
  using combine_cv_cases [of "guarded_cv (std_deviation_us b) (average_time_us b)"
      "guarded_cv (std_deviation_us c) (average_time_us c)"]
  unfolding compare_pair_nonzero [OF assms]
  by (auto simp: pair_combined_def squares_fit_def)

text \<open>
  C1, as stated, fails where the square of a coefficient of variation overflows:
  with baseline average 1 and deviation \<open>10 ^ 155\<close> the detector raises
  OverflowError and classifies nothing.
\<close>

theorem classification_counterexample:
  "compare_pair (Fin (1 / 20)) (sample_result ''t'' ''a'' 10 1 (10 ^ 155))
     (sample_result ''t'' ''a'' 10 2 0) = Inl OverflowError"
proof -
  have nz: "average_time_us (sample_result ''t'' ''a'' 10 1 (10 ^ 155)) \<noteq> Fin 0"
    by (simp add: sample_result_def)
  have big: "overflow_at \<le> (10 ^ 155) ^ 2"
    using overflow_at_bounds(2) by simp
  have "\<not> squares_fit (sample_result ''t'' ''a'' 10 1 (10 ^ 155)) (sample_result ''t'' ''a'' 10 2 0)"
    using big by (simp add: squares_fit_def guarded_cv_def sample_result_def fl_of_real_fits)
  with compare_pair_result [OF nz] show ?thesis by blast
qed

text \<open>
  C1, amended. For a matched pair whose baseline average is positive the
  detector builds a comparison unless the square of a coefficient of variation
  overflows, and then it raises OverflowError. In every comparison built the
  change is \<open>(current - baseline) / baseline\<close>, the pair is flagged a regression
  exactly when the change is above the threshold and an improvement exactly
  when it is below minus the threshold. With a threshold that is not negative
  the two flags exclude each other, both are off when the absolute change is
  at most the threshold, and equal averages give neither flag (and change zero
  when they are finite).
\<close>

theorem classification:
  assumes "fl_less (Fin 0) (average_time_us b)"
  shows "(squares_fit b c \<longrightarrow> (\<exists>r. compare_pair thr b c = Inr (Some r)))
       \<and> (\<not> squares_fit b c \<longrightarrow> compare_pair thr b c = Inl OverflowError)
       \<and> (\<forall>r. compare_pair thr b c = Inr (Some r) \<longrightarrow>
             change_percentage r
               = fl_div (fl_sub (average_time_us c) (average_time_us b)) (average_time_us b)
           \<and> (is_regression r \<longleftrightarrow> fl_less thr (change_percentage r))
           \<and> (is_improvement r \<longleftrightarrow> fl_less (change_percentage r) (fl_neg thr))
           \<and> (fl_le (Fin 0) thr \<longrightarrow> \<not> (is_regression r \<and> is_improvement r))
           \<and> (fl_le (fl_abs (change_percentage r)) thr
                \<longrightarrow> \<not> is_regression r \<and> \<not> is_improvement r)
           \<and> (average_time_us c = average_time_us b \<and> fl_le (Fin 0) thr
                \<longrightarrow> \<not> is_regression r \<and> \<not> is_improvement r)
           \<and> (average_time_us c = average_time_us b \<and> average_time_us b \<noteq> PosInf
                \<longrightarrow> change_percentage r = Fin 0))"
proof -
  from assms have nz: "average_time_us b \<noteq> Fin 0" by auto
  note res = compare_pair_result [OF nz, of c thr]
  have built: "squares_fit b c \<longrightarrow> (\<exists>r. compare_pair thr b c = Inr (Some r))"
    unfolding compare_pair_nonzero [OF nz] using res by auto
  have raised: "\<not> squares_fit b c \<longrightarrow> compare_pair thr b c = Inl OverflowError"
    using res by blast
  have flags: "change_percentage r
               = fl_div (fl_sub (average_time_us c) (average_time_us b)) (average_time_us b)
           \<and> (is_regression r \<longleftrightarrow> fl_less thr (change_percentage r))
           \<and> (is_improvement r \<longleftrightarrow> fl_less (change_percentage r) (fl_neg thr))
           \<and> (fl_le (Fin 0) thr \<longrightarrow> \<not> (is_regression r \<and> is_improvement r))
           \<and> (fl_le (fl_abs (change_percentage r)) thr
                \<longrightarrow> \<not> is_regression r \<and> \<not> is_improvement r)
           \<and> (average_time_us c = average_time_us b \<and> fl_le (Fin 0) thr
                \<longrightarrow> \<not> is_regression r \<and> \<not> is_improvement r)
           \<and> (average_time_us c = average_time_us b \<and> average_time_us b \<noteq> PosInf
                \<longrightarrow> change_percentage r = Fin 0)"
    if r: "compare_pair thr b c = Inr (Some r)" for r
  proof -
    from res r have ch: "change_percentage r = pair_change b c"
      and reg: "is_regression r \<longleftrightarrow> fl_less thr (pair_change b c)"
      and imp: "is_improvement r \<longleftrightarrow> fl_less (pair_change b c) (fl_neg thr)"
      by auto
    have val: "change_percentage r
               = fl_div (fl_sub (average_time_us c) (average_time_us b)) (average_time_us b)"
      by (simp add: ch pair_change_def)
    have same: "change_percentage r = (if average_time_us b = PosInf then NaN else Fin 0)"
      if "average_time_us c = average_time_us b"
      using change_of_equal [OF assms] that by (simp add: val)
    have excl: "fl_le (Fin 0) thr \<longrightarrow> \<not> (is_regression r \<and> is_improvement r)"
      using flags_exclusive [of thr "pair_change b c"] by (simp add: reg imp)
    have small: "fl_le (fl_abs (change_percentage r)) thr
                   \<longrightarrow> \<not> is_regression r \<and> \<not> is_improvement r"
      using flags_small [of "pair_change b c" thr] by (simp add: ch reg imp)
    have equal: "average_time_us c = average_time_us b \<and> fl_le (Fin 0) thr
                   \<longrightarrow> \<not> is_regression r \<and> \<not> is_improvement r"
    proof
      assume eq: "average_time_us c = average_time_us b \<and> fl_le (Fin 0) thr"
      then have "pair_change b c = NaN \<or> pair_change b c = Fin 0"
        using same ch by (auto split: if_splits)
      then show "\<not> is_regression r \<and> \<not> is_improvement r"
        using eq by (cases thr) (auto simp: reg imp)
    qed
    have zero: "average_time_us c = average_time_us b \<and> average_time_us b \<noteq> PosInf
                  \<longrightarrow> change_percentage r = Fin 0"
      using same by auto
    from val reg imp ch excl small equal zero show ?thesis by simp
  qed
  from built raised flags show ?thesis by blast
qed

theorem classification_witness:
  "\<exists>r. compare_pair (Fin (1 / 20)) (sample_result ''create_entity'' ''archetype'' 1000 45 0)
           (sample_result ''create_entity'' ''archetype'' 1000 54 0) = Inr (Some r)
       \<and> change_percentage r = Fin (1 / 5) \<and> is_regression r \<and> \<not> is_improvement r"
proof -
  let ?b = "sample_result ''create_entity'' ''archetype'' 1000 45 0"
  let ?c = "sample_result ''create_entity'' ''archetype'' 1000 54 0"
  have pos: "fl_less (Fin 0) (average_time_us ?b)"
    by (simp add: sample_result_def)
  have fit: "squares_fit ?b ?c"
    using overflow_at_pos
    by (simp add: squares_fit_def guarded_cv_def sample_result_def fl_of_real_small)
  have ch: "fl_div (fl_sub (average_time_us ?c) (average_time_us ?b)) (average_time_us ?b)
              = Fin (1 / 5)"
    by (simp add: sample_result_def fl_sub_def fl_of_real_small)
  from classification [OF pos, of ?c "Fin (1 / 20)"] fit
  obtain r where r: "compare_pair (Fin (1 / 20)) ?b ?c = Inr (Some r)" by blast
  with classification [OF pos, of ?c "Fin (1 / 20)"]
  have "change_percentage r = Fin (1 / 5)"
    and "is_regression r \<longleftrightarrow> fl_less (Fin (1 / 20)) (change_percentage r)"
    and "is_improvement r \<longleftrightarrow> fl_less (change_percentage r) (fl_neg (Fin (1 / 20)))"
    using ch by auto
  with r show ?thesis by auto
qed

lemma guarded_cv_spec:
  "fl_le (Fin 0) mean \<Longrightarrow> guarded_cv stdev mean = spec_cv stdev mean"
  by (cases mean) (auto simp: guarded_cv_def spec_cv_def)

lemma py_min_bound: "fl_le (py_min (Fin (99 / 100)) t) (Fin (99 / 100))"
  by (simp add: py_min_def fl_less_le)

text \<open>
  C2, as stated, fails on a current record with a negative average: the code
  takes the coefficient of variation of that side to be zero, the statement
  takes the quotient. Baseline average 1 with deviation 0 against current
  average -1 with deviation 1 gives the significance \<open>2 * 10 ^ 10\<close> in the code
  and \<open>2 / (1 + 1 / 10 ^ 10)\<close> by the stated formula.
\<close>

theorem significance_counterexample:
  "map_sum id (map_option statistical_significance)
     (compare_pair (Fin (1 / 20)) (sample_result ''t'' ''a'' 10 1 0)
        (sample_result ''t'' ''a'' 10 (- 1) 1))
   \<noteq> map_sum id Some (spec_significance (sample_result ''t'' ''a'' 10 1 0)
                                         (sample_result ''t'' ''a'' 10 (- 1) 1))"
proof -
  let ?b = "sample_result ''t'' ''a'' 10 1 0"
  let ?c = "sample_result ''t'' ''a'' 10 (- 1) 1"
  have nz: "average_time_us ?b \<noteq> Fin 0"
    by (simp add: sample_result_def)
  have ch: "pair_change ?b ?c = Fin (- 2)"
    by (simp add: pair_change_def sample_result_def fl_sub_def fl_of_real_small)
  have small: "\<not> overflow_at \<le> 0" "\<not> overflow_at \<le> 1"
    using overflow_at_gt_1 by simp_all
  have code: "pair_combined ?b ?c = Inr (Fin 0)"
    using small
    by (simp add: pair_combined_def combine_cv_def guarded_cv_def sample_result_def
        fl_of_real_small)
  have worded: "combine_cv (spec_cv (std_deviation_us ?b) (average_time_us ?b))
                           (spec_cv (std_deviation_us ?c) (average_time_us ?c)) = Inr (Fin 1)"
    using small
    by (simp add: combine_cv_def spec_cv_def sample_result_def fl_of_real_small)
  have spec: "spec_significance ?b ?c = Inr (Fin (2 / (1 + 1 / 10 ^ 10)))"
    unfolding spec_significance_def worded ch
    by (simp add: significance_of_def fl_of_real_small)
  have "significance_of (Fin (- 2)) (Fin 0) = Fin (2 * 10 ^ 10)"
    by (simp add: significance_of_def fl_of_real_small)
  then show ?thesis
    unfolding compare_pair_nonzero [OF nz] code spec ch by simp
qed

text \<open>
  C2, amended. For a matched pair whose baseline average is positive the
  detector builds a comparison unless the square of a coefficient of variation
  overflows (then it raises OverflowError). In every comparison built, the
  coefficient of variation of the baseline is deviation over mean, that of the
  current record is deviation over mean when its mean is positive and zero
  otherwise; the significance is the absolute change over the square root of
  the sum of their squares plus \<open>1 / 10 ^ 10\<close>; the confidence is the minimum of
  0.99 and a third of the significance, hence at most 0.99. When the current
  average is not negative the significance is the one the specification words.
\<close>

theorem significance_and_confidence:
  assumes "fl_less (Fin 0) (average_time_us b)"
  shows "(squares_fit b c \<longrightarrow> (\<exists>r. compare_pair thr b c = Inr (Some r)))
       \<and> (\<forall>r. compare_pair thr b c = Inr (Some r) \<longrightarrow>
            (\<exists>combined.
               combine_cv (fl_div (std_deviation_us b) (average_time_us b))
                 (if fl_less (Fin 0) (average_time_us c)
                  then fl_div (std_deviation_us c) (average_time_us c) else Fin 0)
                 = Inr combined
             \<and> statistical_significance r
                 = fl_div (fl_abs (change_percentage r)) (fl_add combined (Fin (1 / 10 ^ 10)))
             \<and> confidence_level r
                 = py_min (Fin (99 / 100)) (fl_div (statistical_significance r) (Fin 3))
             \<and> fl_le (confidence_level r) (Fin (99 / 100))
             \<and> (fl_le (Fin 0) (average_time_us c)
                  \<longrightarrow> spec_significance b c = Inr (statistical_significance r))))"
proof -
  from assms have nz: "average_time_us b \<noteq> Fin 0" by auto
  note res = compare_pair_result [OF nz, of c thr]
  have built: "squares_fit b c \<longrightarrow> (\<exists>r. compare_pair thr b c = Inr (Some r))"
    unfolding compare_pair_nonzero [OF nz] using res by auto
  have formulas: "\<exists>combined.
               combine_cv (fl_div (std_deviation_us b) (average_time_us b))
                 (if fl_less (Fin 0) (average_time_us c)
                  then fl_div (std_deviation_us c) (average_time_us c) else Fin 0)
                 = Inr combined
             \<and> statistical_significance r
                 = fl_div (fl_abs (change_percentage r)) (fl_add combined (Fin (1 / 10 ^ 10)))
             \<and> confidence_level r
                 = py_min (Fin (99 / 100)) (fl_div (statistical_significance r) (Fin 3))
             \<and> fl_le (confidence_level r) (Fin (99 / 100))
             \<and> (fl_le (Fin 0) (average_time_us c)
                  \<longrightarrow> spec_significance b c = Inr (statistical_significance r))"
    if r: "compare_pair thr b c = Inr (Some r)" for r
  proof -
    from res r obtain comb where comb: "pair_combined b c = Inr comb"
      and ch: "change_percentage r = pair_change b c"
      and sg: "statistical_significance r = significance_of (pair_change b c) comb"
      and cf: "confidence_level r
                 = py_min (Fin (99 / 100)) (fl_div (significance_of (pair_change b c) comb) (Fin 3))"
      by auto
    have c1: "combine_cv (fl_div (std_deviation_us b) (average_time_us b))
                 (if fl_less (Fin 0) (average_time_us c)
                  then fl_div (std_deviation_us c) (average_time_us c) else Fin 0)
                 = Inr comb"
      using comb assms by (simp add: pair_combined_def guarded_cv_def)
    have c2: "statistical_significance r
                 = fl_div (fl_abs (change_percentage r)) (fl_add comb (Fin (1 / 10 ^ 10)))"
      by (simp add: sg ch significance_of_def)
    have c3: "confidence_level r
                 = py_min (Fin (99 / 100)) (fl_div (statistical_significance r) (Fin 3))"
      by (simp add: cf sg)
    have c4: "fl_le (confidence_level r) (Fin (99 / 100))"
      unfolding cf by (rule py_min_bound)
    have c5: "fl_le (Fin 0) (average_time_us c)
                \<longrightarrow> spec_significance b c = Inr (statistical_significance r)"
    proof
      assume nonneg: "fl_le (Fin 0) (average_time_us c)"
      have "fl_le (Fin 0) (average_time_us b)" using assms by (rule fl_less_le)
      then have "combine_cv (spec_cv (std_deviation_us b) (average_time_us b))
                            (spec_cv (std_deviation_us c) (average_time_us c)) = Inr comb"
        using comb nonneg by (simp add: pair_combined_def guarded_cv_spec)
      then show "spec_significance b c = Inr (statistical_significance r)"
        by (simp add: spec_significance_def sg)
    qed
    from c1 c2 c3 c4 c5 show ?thesis by blast
  qed
  from built formulas show ?thesis by blast
qed

theorem significance_and_confidence_witness:
  "\<exists>r. compare_pair (Fin (1 / 20)) (sample_result ''create_entity'' ''archetype'' 1000 45 0)
           (sample_result ''create_entity'' ''archetype'' 1000 54 0) = Inr (Some r)
       \<and> fl_le (confidence_level r) (Fin (99 / 100))
       \<and> spec_significance (sample_result ''create_entity'' ''archetype'' 1000 45 0)
            (sample_result ''create_entity'' ''archetype'' 1000 54 0)
          = Inr (statistical_significance r)"
proof -
  let ?b = "sample_result ''create_entity'' ''archetype'' 1000 45 0"
  let ?c = "sample_result ''create_entity'' ''archetype'' 1000 54 0"
  have pos: "fl_less (Fin 0) (average_time_us ?b)"
    by (simp add: sample_result_def)
  have nonneg: "fl_le (Fin 0) (average_time_us ?c)"
    by (simp add: sample_result_def)
  have fit: "squares_fit ?b ?c"
    using overflow_at_pos
    by (simp add: squares_fit_def guarded_cv_def sample_result_def fl_of_real_small)
  from significance_and_confidence [OF pos, of ?c "Fin (1 / 20)"] fit
  obtain r where r: "compare_pair (Fin (1 / 20)) ?b ?c = Inr (Some r)" by blast
  with significance_and_confidence [OF pos, of ?c "Fin (1 / 20)"] nonneg
  have "fl_le (confidence_level r) (Fin (99 / 100))"
    and "spec_significance ?b ?c = Inr (statistical_significance r)"
    by blast+
  with r show ?thesis by blast
qed

text \<open>
  The square of the current side's coefficient of variation overflows in the
  same way as the baseline's: current average 1 with deviation \<open>10 ^ 155\<close>.
\<close>

lemma compare_pair_overflow_current:
  "compare_pair (Fin (1 / 20)) (sample_result ''t'' ''a'' 10 1 0)
     (sample_result ''t'' ''a'' 10 1 (10 ^ 155)) = Inl OverflowError"
proof -
  have nz: "average_time_us (sample_result ''t'' ''a'' 10 1 0) \<noteq> Fin 0"
    by (simp add: sample_result_def)
  have big: "overflow_at \<le> (10 ^ 155) ^ 2"
    using overflow_at_bounds(2) by simp
  have "\<not> squares_fit (sample_result ''t'' ''a'' 10 1 0) (sample_result ''t'' ''a'' 10 1 (10 ^ 155))"
    using big by (simp add: squares_fit_def guarded_cv_def sample_result_def fl_of_real_fits)
  with compare_pair_result [OF nz] show ?thesis by blast
qed

lemma fl_less_not_nan: "fl_less a b \<Longrightarrow> a \<noteq> NaN \<and> b \<noteq> NaN"
  by (cases a; cases b) auto

lemma compare_pair_cases:
  "(compare_pair thr b c = Inr None \<and> average_time_us b = Fin 0)
   \<or> (compare_pair thr b c = Inl OverflowError \<and> average_time_us b \<noteq> Fin 0
        \<and> \<not> squares_fit b c)
   \<or> (\<exists>r. compare_pair thr b c = Inr (Some r) \<and> average_time_us b \<noteq> Fin 0
          \<and> squares_fit b c \<and> baseline_performance r \<noteq> Fin 0
          \<and> (is_regression r \<or> is_improvement r \<longrightarrow> change_percentage r \<noteq> NaN))"
proof (cases "average_time_us b = Fin 0")
  case True
  then show ?thesis by (simp add: compare_pair_zero)
next
  case False
  note res = compare_pair_result [OF False, of c thr]
  show ?thesis
  proof (cases "squares_fit b c")
    case fit: True
    with res obtain comb where comb: "pair_combined b c = Inr comb" by blast
    then obtain r where r: "compare_pair thr b c = Inr (Some r)"
      unfolding compare_pair_nonzero [OF False] by simp
    with res have "baseline_performance r = average_time_us b"
      and "change_percentage r = pair_change b c"
      and "is_regression r \<longleftrightarrow> fl_less thr (pair_change b c)"
      and "is_improvement r \<longleftrightarrow> fl_less (pair_change b c) (fl_neg thr)"
      by auto
    then have "baseline_performance r \<noteq> Fin 0"
      and "is_regression r \<or> is_improvement r \<longrightarrow> change_percentage r \<noteq> NaN"
      using False by (auto dest: fl_less_not_nan)
    with r fit False show ?thesis by blast
  next
    case nofit: False
    with res False show ?thesis by blast
  qed
qed

text \<open>
  The loop raises nothing but OverflowError, and that exactly when a matched
  pair has a square that overflows; otherwise it extends both accumulators by
  comparisons that carry the flag of their list and are confident.
\<close>

lemma detect_loop_shape:
  "(detect_loop rt thr lk cs regs imps = Inl OverflowError \<and> \<not> matched_fit rt lk cs)
   \<or> (\<exists>R I. detect_loop rt thr lk cs regs imps = Inr (regs @ R, imps @ I)
         \<and> matched_fit rt lk cs
         \<and> (\<forall>r\<in>set R. is_regression r \<and> kept r)
         \<and> (\<forall>r\<in>set I. is_improvement r \<and> kept r))"
proof (induction cs arbitrary: regs imps)
  case Nil
  show ?case by (simp add: matched_fit_def)
next
  case (Cons c cs)
  show ?case
  proof (cases "lk (result_key rt c)")
    case None
    then have "detect_loop rt thr lk (c # cs) regs imps = detect_loop rt thr lk cs regs imps"
      and "matched_fit rt lk (c # cs) = matched_fit rt lk cs"
      by (simp_all add: matched_fit_def)
    then show ?thesis using Cons.IH [of regs imps] by simp
  next
    case (Some b)
    have fit_step: "matched_fit rt lk (c # cs)
        \<longleftrightarrow> (average_time_us b = Fin 0 \<or> squares_fit b c) \<and> matched_fit rt lk cs"
      using Some by (simp add: matched_fit_def)
    consider (zero) "compare_pair thr b c = Inr None" "average_time_us b = Fin 0"
      | (over) "compare_pair thr b c = Inl OverflowError" "average_time_us b \<noteq> Fin 0"
               "\<not> squares_fit b c"
      | (built) r where "compare_pair thr b c = Inr (Some r)" "average_time_us b \<noteq> Fin 0"
          "squares_fit b c" "baseline_performance r \<noteq> Fin 0"
          "is_regression r \<or> is_improvement r \<longrightarrow> change_percentage r \<noteq> NaN"
      using compare_pair_cases [of thr b c] by blast
    then show ?thesis
    proof cases
      case zero
      have "detect_loop rt thr lk (c # cs) regs imps = detect_loop rt thr lk cs regs imps"
        using Some zero by simp
      moreover have "matched_fit rt lk (c # cs) = matched_fit rt lk cs"
        using fit_step zero by simp
      ultimately show ?thesis using Cons.IH [of regs imps] by simp
    next
      case over
      have "detect_loop rt thr lk (c # cs) regs imps = Inl OverflowError"
        using Some over by simp
      moreover have "\<not> matched_fit rt lk (c # cs)"
        using fit_step over by simp
      ultimately show ?thesis by simp
    next
      case built
      have fit: "matched_fit rt lk (c # cs) = matched_fit rt lk cs"
        using fit_step built by simp
      consider (reg) "is_regression r \<and> fl_less (Fin (1 / 2)) (confidence_level r)"
        | (imp) "\<not> (is_regression r \<and> fl_less (Fin (1 / 2)) (confidence_level r))"
                "is_improvement r \<and> fl_less (Fin (1 / 2)) (confidence_level r)"
        | (none) "\<not> (is_regression r \<and> fl_less (Fin (1 / 2)) (confidence_level r))"
                 "\<not> (is_improvement r \<and> fl_less (Fin (1 / 2)) (confidence_level r))"
        by blast
      then show ?thesis
      proof cases
        case reg
        have step: "detect_loop rt thr lk (c # cs) regs imps
                      = detect_loop rt thr lk cs (regs @ [r]) imps"
          using Some built(1) reg by simp
        have k: "is_regression r \<and> kept r"
          using reg built by (simp add: kept_def)
        from Cons.IH [of "regs @ [r]" imps] show ?thesis
        proof
          assume "detect_loop rt thr lk cs (regs @ [r]) imps = Inl OverflowError
                    \<and> \<not> matched_fit rt lk cs"
          then show ?thesis using step fit by simp
        next
          assume "\<exists>R I. detect_loop rt thr lk cs (regs @ [r]) imps
                           = Inr ((regs @ [r]) @ R, imps @ I)
                 \<and> matched_fit rt lk cs
                 \<and> (\<forall>r\<in>set R. is_regression r \<and> kept r)
                 \<and> (\<forall>r\<in>set I. is_improvement r \<and> kept r)"
          then obtain R I where
            run: "detect_loop rt thr lk cs (regs @ [r]) imps = Inr ((regs @ [r]) @ R, imps @ I)"
            and mf: "matched_fit rt lk cs"
            and R: "\<forall>x\<in>set R. is_regression x \<and> kept x"
            and I: "\<forall>x\<in>set I. is_improvement x \<and> kept x" by blast
          have "detect_loop rt thr lk (c # cs) regs imps = Inr (regs @ (r # R), imps @ I)"
            using step run by simp
          moreover have "\<forall>x\<in>set (r # R). is_regression x \<and> kept x"
            using R k by simp
          ultimately show ?thesis using I mf fit by blast
        qed
      next
        case imp
        from imp have nr: "\<not> (is_regression r \<and> fl_less (Fin (1 / 2)) (confidence_level r))"
          by blast
        have step: "detect_loop rt thr lk (c # cs) regs imps
                      = detect_loop rt thr lk cs regs (imps @ [r])"
          using Some built(1) imp by auto
        have k: "is_improvement r \<and> kept r"
          using imp built by (simp add: kept_def)
        from Cons.IH [of regs "imps @ [r]"] show ?thesis
        proof
          assume "detect_loop rt thr lk cs regs (imps @ [r]) = Inl OverflowError
                    \<and> \<not> matched_fit rt lk cs"
          then show ?thesis using step fit by simp
        next
          assume "\<exists>R I. detect_loop rt thr lk cs regs (imps @ [r])
                           = Inr (regs @ R, (imps @ [r]) @ I)
                 \<and> matched_fit rt lk cs
                 \<and> (\<forall>r\<in>set R. is_regression r \<and> kept r)
                 \<and> (\<forall>r\<in>set I. is_improvement r \<and> kept r)"
          then obtain R I where
            run: "detect_loop rt thr lk cs regs (imps @ [r]) = Inr (regs @ R, (imps @ [r]) @ I)"
            and mf: "matched_fit rt lk cs"
            and R: "\<forall>x\<in>set R. is_regression x \<and> kept x"
            and I: "\<forall>x\<in>set I. is_improvement x \<and> kept x" by blast
          have "detect_loop rt thr lk (c # cs) regs imps = Inr (regs @ R, imps @ (r # I))"
            using step run by simp
          moreover have "\<forall>x\<in>set (r # I). is_improvement x \<and> kept x"
            using I k by simp
          ultimately show ?thesis using R mf fit by blast
        qed
      next
        case none
        have "detect_loop rt thr lk (c # cs) regs imps = detect_loop rt thr lk cs regs imps"
          using Some built(1) none by auto
        then show ?thesis using Cons.IH [of regs imps] fit by simp
      qed
    qed
  qed
qed

lemma detect_loop_append:
  "detect_loop rt thr lk (xs @ ys) regs imps =
     bind_err (detect_loop rt thr lk xs regs imps) (\<lambda>(R, I). detect_loop rt thr lk ys R I)"
proof (induction xs arbitrary: regs imps)
  case Nil
  show ?case by simp
next
  case (Cons c xs)
  show ?case
    by (simp add: Cons.IH split: option.split sum.split)
qed

text \<open>The sort keeps the elements and, on keys without NaN, puts them in order.\<close>

lemma set_insort_lt: "set (insort_lt k x ys) = insert x (set ys)"
  by (induction ys) auto

lemma set_py_sort: "set (py_sort k xs) = set xs"
  unfolding py_sort_def by (induction xs) (simp_all add: set_insort_lt)

lemma set_sort_reverse: "set (sort_reverse k xs) = set xs"
  by (simp add: sort_reverse_def set_py_sort)

lemma fl_le_trans: "fl_le a b \<Longrightarrow> fl_le b c \<Longrightarrow> fl_le a c"
  by (cases a; cases b; cases c) auto

lemma fl_le_total: "a \<noteq> NaN \<Longrightarrow> b \<noteq> NaN \<Longrightarrow> \<not> fl_less b a \<Longrightarrow> fl_le a b"
  by (cases a; cases b) auto

lemma sorted_insort_lt:
  assumes "k x \<noteq> NaN" and "\<forall>z\<in>set ys. k z \<noteq> NaN"
    and "sorted_wrt (\<lambda>a b. fl_le (k a) (k b)) ys"
  shows "sorted_wrt (\<lambda>a b. fl_le (k a) (k b)) (insort_lt k x ys)"
  using assms
proof (induction ys)
  case Nil
  show ?case by simp
next
  case (Cons y ys)
  show ?case
  proof (cases "fl_less (k y) (k x)")
    case True
    then have "fl_le (k y) (k x)" by (rule fl_less_le)
    with Cons True show ?thesis by (auto simp: set_insort_lt)
  next
    case False
    with Cons.prems have "fl_le (k x) (k y)" by (auto intro: fl_le_total)
    with Cons.prems False show ?thesis by (auto intro: fl_le_trans)
  qed
qed

lemma sorted_py_sort:
  "\<forall>z\<in>set xs. k z \<noteq> NaN \<Longrightarrow> sorted_wrt (\<lambda>a b. fl_le (k a) (k b)) (py_sort k xs)"
proof (induction xs)
  case Nil
  show ?case by (simp add: py_sort_def)
next
  case (Cons x xs)
  then have "sorted_wrt (\<lambda>a b. fl_le (k a) (k b)) (py_sort k xs)" by simp
  with Cons.prems have "sorted_wrt (\<lambda>a b. fl_le (k a) (k b)) (insort_lt k x (py_sort k xs))"
    by (intro sorted_insort_lt) (simp_all add: set_py_sort)
  then show ?case by (simp add: py_sort_def)
qed

lemma sort_reverse_sorted:
  assumes "\<forall>z\<in>set xs. k z \<noteq> NaN"
  shows "sorted_wrt (\<lambda>a b. fl_le (k b) (k a)) (sort_reverse k xs)"
proof -
  have "sorted_wrt (\<lambda>a b. fl_le (k a) (k b)) (py_sort k (rev xs))"
    using assms by (intro sorted_py_sort) simp
  then show ?thesis
    by (simp add: sort_reverse_def sorted_wrt_rev)
qed

lemma detect_regressions_shape:
  "(detect_regressions rt thr bs cs = Inl OverflowError
      \<and> \<not> matched_fit rt (baseline_lookup rt bs) cs)
   \<or> (\<exists>R I. detect_loop rt thr (baseline_lookup rt bs) cs [] [] = Inr (R, I)
         \<and> detect_regressions rt thr bs cs
             = Inr (sort_reverse change_percentage R, py_sort change_percentage I)
         \<and> matched_fit rt (baseline_lookup rt bs) cs
         \<and> (\<forall>r\<in>set R. is_regression r \<and> kept r)
         \<and> (\<forall>r\<in>set I. is_improvement r \<and> kept r))"
  using detect_loop_shape [of rt thr "baseline_lookup rt bs" cs "[]" "[]"]
  by (auto simp: detect_regressions_def)

text \<open>
  C3. Every element of the regressions list returned by \<open>detect_regressions\<close> is
  flagged a regression with confidence above 0.5, every element of the
  improvements list is flagged an improvement with confidence above 0.5, the
  regressions are in descending order of \<open>change_percentage\<close> and the
  improvements in ascending order.
\<close>

theorem output_lists:
  assumes "detect_regressions rt thr bs cs = Inr (regs, imps)"
  shows "(\<forall>r\<in>set regs. is_regression r \<and> fl_less (Fin (1 / 2)) (confidence_level r))
       \<and> (\<forall>r\<in>set imps. is_improvement r \<and> fl_less (Fin (1 / 2)) (confidence_level r))
       \<and> sorted_wrt (\<lambda>x y. fl_le (change_percentage y) (change_percentage x)) regs
       \<and> sorted_wrt (\<lambda>x y. fl_le (change_percentage x) (change_percentage y)) imps"
proof -
  from detect_regressions_shape [of rt thr bs cs] assms obtain R I where
    eq: "detect_regressions rt thr bs cs
           = Inr (sort_reverse change_percentage R, py_sort change_percentage I)"
    and R: "\<forall>r\<in>set R. is_regression r \<and> kept r"
    and I: "\<forall>r\<in>set I. is_improvement r \<and> kept r" by auto
  from eq assms have regs: "regs = sort_reverse change_percentage R"
    and imps: "imps = py_sort change_percentage I" by simp_all
  have "\<forall>r\<in>set regs. is_regression r \<and> fl_less (Fin (1 / 2)) (confidence_level r)"
    using R by (simp add: regs set_sort_reverse kept_def)
  moreover have "\<forall>r\<in>set imps. is_improvement r \<and> fl_less (Fin (1 / 2)) (confidence_level r)"
    using I by (simp add: imps set_py_sort kept_def)
  moreover have "sorted_wrt (\<lambda>x y. fl_le (change_percentage y) (change_percentage x)) regs"
    unfolding regs using R by (intro sort_reverse_sorted) (simp add: kept_def)
  moreover have "sorted_wrt (\<lambda>x y. fl_le (change_percentage x) (change_percentage y)) imps"
    unfolding imps using I by (intro sorted_py_sort) (simp add: kept_def)
  ultimately show ?thesis by blast
qed

text \<open>
  C7, as stated, fails: detection is not total. With baseline average 1 and
  deviation \<open>10 ^ 155\<close> the square of the coefficient of variation overflows and
  \<open>detect_regressions\<close> raises OverflowError.
\<close>

theorem zero_baseline_excluded_counterexample:
  "detect_regressions sample_runtime (Fin (1 / 20))
     [sample_result ''A'' ''x'' 10 1 (10 ^ 155)] [sample_result ''A'' ''x'' 10 2 0]
   = Inl OverflowError"
proof -
  have big: "overflow_at \<le> (10 ^ 155) ^ 2"
    using overflow_at_bounds(2) by simp
  have "\<not> squares_fit (sample_result ''A'' ''x'' 10 1 (10 ^ 155)) (sample_result ''A'' ''x'' 10 2 0)"
    using big by (simp add: squares_fit_def guarded_cv_def sample_result_def fl_of_real_fits)
  then have "\<not> matched_fit sample_runtime
                 (baseline_lookup sample_runtime [sample_result ''A'' ''x'' 10 1 (10 ^ 155)])
                 [sample_result ''A'' ''x'' 10 2 0]"
    by (simp add: matched_fit_def baseline_lookup_def result_key_def sample_runtime_def
        sample_result_def)
  with detect_regressions_shape [of sample_runtime "Fin (1 / 20)"
      "[sample_result ''A'' ''x'' 10 1 (10 ^ 155)]" "[sample_result ''A'' ''x'' 10 2 0]"]
  show ?thesis by blast
qed

text \<open>
  C7, amended. A current record whose baseline record has average zero is passed
  over: \<open>compare_pair\<close> divides nothing and yields no comparison, so the result is
  the same as without that record, and no reported comparison has a zero
  baseline. Detection never raises a division by zero; the one exception it
  raises is OverflowError, exactly when for some matched pair with a baseline
  that is not zero the square of a coefficient of variation overflows. On every
  other input it returns its two lists.
\<close>

theorem zero_baseline_excluded:
  "(matched_fit rt (baseline_lookup rt bs) cs
      \<longrightarrow> (\<exists>regs imps. detect_regressions rt thr bs cs = Inr (regs, imps)
             \<and> (\<forall>r\<in>set regs \<union> set imps. baseline_performance r \<noteq> Fin 0)))
   \<and> (\<not> matched_fit rt (baseline_lookup rt bs) cs
      \<longrightarrow> detect_regressions rt thr bs cs = Inl OverflowError)
   \<and> (baseline_lookup rt bs (result_key rt c) = Some b \<and> average_time_us b = Fin 0
        \<longrightarrow> compare_pair thr b c = Inr None
          \<and> detect_regressions rt thr bs (xs @ c # ys) = detect_regressions rt thr bs (xs @ ys))"
proof -
  note shape = detect_regressions_shape [of rt thr bs cs]
  have total: "\<exists>regs imps. detect_regressions rt thr bs cs = Inr (regs, imps)
             \<and> (\<forall>r\<in>set regs \<union> set imps. baseline_performance r \<noteq> Fin 0)"
    if "matched_fit rt (baseline_lookup rt bs) cs"
  proof -
    from shape that obtain R I where
      eq: "detect_regressions rt thr bs cs
             = Inr (sort_reverse change_percentage R, py_sort change_percentage I)"
      and R: "\<forall>r\<in>set R. is_regression r \<and> kept r"
      and I: "\<forall>r\<in>set I. is_improvement r \<and> kept r" by blast
    have "\<forall>r\<in>set (sort_reverse change_percentage R) \<union> set (py_sort change_percentage I).
            baseline_performance r \<noteq> Fin 0"
      using R I by (auto simp: set_sort_reverse set_py_sort kept_def)
    with eq show ?thesis by blast
  qed
  have raised: "detect_regressions rt thr bs cs = Inl OverflowError"
    if "\<not> matched_fit rt (baseline_lookup rt bs) cs"
    using shape that by blast
  have skip: "compare_pair thr b c = Inr None
          \<and> detect_regressions rt thr bs (xs @ c # ys) = detect_regressions rt thr bs (xs @ ys)"
    if found: "baseline_lookup rt bs (result_key rt c) = Some b" and zero: "average_time_us b = Fin 0"
  proof -
    have cp: "compare_pair thr b c = Inr None"
      using zero by (rule compare_pair_zero)
    have step: "detect_loop rt thr (baseline_lookup rt bs) (c # ys) P Q
                  = detect_loop rt thr (baseline_lookup rt bs) ys P Q" for P Q
      using found cp by simp
    have "detect_loop rt thr (baseline_lookup rt bs) (xs @ c # ys) [] []
            = detect_loop rt thr (baseline_lookup rt bs) (xs @ ys) [] []"
      unfolding detect_loop_append step ..
    then show ?thesis using cp by (simp add: detect_regressions_def)
  qed
  from total raised skip show ?thesis by blast
qed

text \<open>The comparison of two sample records without deviation.\<close>

lemma sample_compare:
  assumes "avg \<noteq> 0" and "\<bar>(cur - avg) / avg\<bar> \<le> 10 ^ 8" and "\<bar>cur - avg\<bar> \<le> 10 ^ 20"
  shows "compare_pair thr (sample_result name arch n avg 0) (sample_result name' arch' n' cur 0)
     = Inr (Some \<lparr> reg_test_name = PStr name',
                 baseline_performance = Fin avg,
                 current_performance = Fin cur,
                 change_percentage = Fin ((cur - avg) / avg),
                 is_regression = fl_less thr (Fin ((cur - avg) / avg)),
                 is_improvement = fl_less (Fin ((cur - avg) / avg)) (fl_neg thr),
                 statistical_significance = Fin (\<bar>(cur - avg) / avg\<bar> * 10 ^ 10),
                 confidence_level =
                   py_min (Fin (99 / 100)) (Fin (\<bar>(cur - avg) / avg\<bar> * 10 ^ 10 / 3)) \<rparr>)"
proof -
  let ?b = "sample_result name arch n avg 0"
  let ?c = "sample_result name' arch' n' cur 0"
  have nz: "average_time_us ?b \<noteq> Fin 0"
    using assms(1) by (simp add: sample_result_def)
  have small: "\<not> overflow_at \<le> 0"
    using overflow_at_pos by simp
  have d300: "\<bar>(cur - avg) / avg\<bar> \<le> 10 ^ 20"
    using assms(2) by (rule order_trans) simp
  have ch: "pair_change ?b ?c = Fin ((cur - avg) / avg)"
    using assms(1,3) d300
    by (simp add: pair_change_def sample_result_def fl_sub_def fl_of_real_small)
  have comb: "pair_combined ?b ?c = Inr (Fin 0)"
    using small assms(1)
    by (simp add: pair_combined_def combine_cv_def guarded_cv_def sample_result_def
        fl_of_real_small)
  define s where "s = \<bar>(cur - avg) / avg\<bar> * 10 ^ 10"
  have s0: "0 \<le> s" by (simp add: s_def)
  have "s \<le> 10 ^ 8 * (10 ^ 10 :: real)"
    unfolding s_def using assms(2) by (intro mult_right_mono) simp_all
  also have "\<dots> \<le> 10 ^ 20" by simp
  finally have s_le: "s \<le> 10 ^ 20" .
  have s300: "\<bar>s\<bar> \<le> 10 ^ 20"
    using s0 s_le by simp
  have "s / 3 \<le> s" using s0 by simp
  then have t300: "\<bar>s / 3\<bar> \<le> 10 ^ 20"
    using s0 s_le by simp
  have sg: "significance_of (Fin ((cur - avg) / avg)) (Fin 0) = Fin s"
    using s300 by (simp add: significance_of_def fl_of_real_small s_def)
  have third: "fl_div (Fin s) (Fin 3) = Fin (s / 3)"
    using t300 by (simp add: fl_of_real_small)
  show ?thesis
    unfolding compare_pair_nonzero [OF nz] comb ch bind_err_Inr sg third
    by (simp add: sample_result_def s_def)
qed

theorem output_lists_witness:
  "detect_regressions sample_runtime (Fin (1 / 20))
     [sample_result ''A'' ''x'' 10 45 0, sample_result ''B'' ''x'' 10 40 0,
      sample_result ''C'' ''x'' 10 10 0]
     [sample_result ''A'' ''x'' 10 54 0, sample_result ''B'' ''x'' 10 60 0,
      sample_result ''C'' ''x'' 10 5 0]
   = Inr ([\<lparr> reg_test_name = PStr ''B'', baseline_performance = Fin 40,
             current_performance = Fin 60, change_percentage = Fin (1 / 2),
             is_regression = True, is_improvement = False,
             statistical_significance = Fin (5 * 10 ^ 9), confidence_level = Fin (99 / 100) \<rparr>,
           \<lparr> reg_test_name = PStr ''A'', baseline_performance = Fin 45,
             current_performance = Fin 54, change_percentage = Fin (1 / 5),
             is_regression = True, is_improvement = False,
             statistical_significance = Fin (2 * 10 ^ 9), confidence_level = Fin (99 / 100) \<rparr>],
          [\<lparr> reg_test_name = PStr ''C'', baseline_performance = Fin 10,
             current_performance = Fin 5, change_percentage = Fin (- (1 / 2)),
             is_regression = False, is_improvement = True,
             statistical_significance = Fin (5 * 10 ^ 9), confidence_level = Fin (99 / 100) \<rparr>])
   \<and> sorted_wrt (\<lambda>x y. fl_le (change_percentage y) (change_percentage x))
        [\<lparr> reg_test_name = PStr ''B'', baseline_performance = Fin 40,
             current_performance = Fin 60, change_percentage = Fin (1 / 2),
             is_regression = True, is_improvement = False,
             statistical_significance = Fin (5 * 10 ^ 9), confidence_level = Fin (99 / 100) \<rparr>,
           \<lparr> reg_test_name = PStr ''A'', baseline_performance = Fin 45,
             current_performance = Fin 54, change_percentage = Fin (1 / 5),
             is_regression = True, is_improvement = False,
             statistical_significance = Fin (2 * 10 ^ 9), confidence_level = Fin (99 / 100) \<rparr>]"
  (is "?run = Inr (?regs, ?imps) \<and> _")
proof -
  have keys: "result_key sample_runtime (sample_result name ''x'' 10 v 0) = name @ ''_x_10''"
    for name v
    by (simp add: result_key_def sample_runtime_def sample_result_def decimal.simps)
  have a: "compare_pair (Fin (1 / 20)) (sample_result ''A'' ''x'' 10 45 0)
             (sample_result ''A'' ''x'' 10 54 0) = Inr (Some (?regs ! 1))"
    by (subst sample_compare) (simp_all add: py_min_def)
  have b: "compare_pair (Fin (1 / 20)) (sample_result ''B'' ''x'' 10 40 0)
             (sample_result ''B'' ''x'' 10 60 0) = Inr (Some (?regs ! 0))"
    by (subst sample_compare) (simp_all add: py_min_def)
  have c: "compare_pair (Fin (1 / 20)) (sample_result ''C'' ''x'' 10 10 0)
             (sample_result ''C'' ''x'' 10 5 0) = Inr (Some (?imps ! 0))"
    by (subst sample_compare) (simp_all add: py_min_def)
  have run: "?run = Inr (?regs, ?imps)"
    by (simp add: detect_regressions_def baseline_lookup_def keys a b c
        sort_reverse_def py_sort_def)
  from output_lists [OF run] run show ?thesis by blast
qed

theorem zero_baseline_excluded_witness:
  "baseline_lookup sample_runtime [sample_result ''A'' ''x'' 10 0 0]
      (result_key sample_runtime (sample_result ''A'' ''x'' 10 54 0))
     = Some (sample_result ''A'' ''x'' 10 0 0)
   \<and> average_time_us (sample_result ''A'' ''x'' 10 0 0) = Fin 0
   \<and> compare_pair (Fin (1 / 20)) (sample_result ''A'' ''x'' 10 0 0)
       (sample_result ''A'' ''x'' 10 54 0) = Inr None
   \<and> detect_regressions sample_runtime (Fin (1 / 20)) [sample_result ''A'' ''x'' 10 0 0]
       [sample_result ''A'' ''x'' 10 54 0] = Inr ([], [])"
proof -
  have hyp: "baseline_lookup sample_runtime [sample_result ''A'' ''x'' 10 0 0]
      (result_key sample_runtime (sample_result ''A'' ''x'' 10 54 0))
     = Some (sample_result ''A'' ''x'' 10 0 0)
   \<and> average_time_us (sample_result ''A'' ''x'' 10 0 0) = Fin 0"
    by (simp add: baseline_lookup_def result_key_def sample_runtime_def sample_result_def)
  have empty: "detect_regressions sample_runtime (Fin (1 / 20))
                 [sample_result ''A'' ''x'' 10 0 0] [] = Inr ([], [])"
    by (simp add: detect_regressions_def sort_reverse_def py_sort_def)
  from zero_baseline_excluded [where rt = sample_runtime and thr = "Fin (1 / 20)"
      and bs = "[sample_result ''A'' ''x'' 10 0 0]" and c = "sample_result ''A'' ''x'' 10 54 0"
      and b = "sample_result ''A'' ''x'' 10 0 0" and xs = "[]" and ys = "[]"]
    hyp empty
  show ?thesis by simp
qed

section \<open>Properties of the loader\<close>

lemma overflow_at_above: "x \<le> 10 ^ 20 \<Longrightarrow> (overflow_at \<le> x) = False"
proof -
  assume "x \<le> 10 ^ 20"
  moreover have "(10::real) ^ 20 \<le> 10 ^ 300" by (rule power_increasing) simp_all
  ultimately have "x \<le> 10 ^ 300" by (rule order_trans)
  then show ?thesis using overflow_at_bounds(1) by simp
qed

lemma py_int_errors: "py_int rt v = Inl e \<Longrightarrow> caught_item e \<or> e = OverflowError"
proof (cases v)
  case (PFloat a)
  assume "py_int rt v = Inl e"
  with PFloat show ?thesis by (cases a) auto
qed (auto split: option.splits)

lemma py_float_errors: "py_float rt v = Inl e \<Longrightarrow> caught_item e \<or> e = OverflowError"
  by (cases v) (auto split: option.splits if_splits)

lemma py_int_default: "py_int rt (PInt 0) = Inr 0"
  by simp

lemma py_float_default:
  "py_float rt (PInt 0) = Inr (Fin 0)" "py_float rt (PFloat (Fin 0)) = Inr (Fin 0)"
  using overflow_at_pos by simp_all

lemma dict_get_field:
  "dict_get item k d = field_value item [k] d"
  "field_value item [k] (field_value item [k'] d) = field_value item [k, k'] d"
  by (simp_all add: dict_get_def field_value_def split: option.split)

text \<open>A coercion of a field raises exactly when the field is uncoercible or overflows.\<close>

lemma int_field_isl:
  "isl (py_int rt (field_value item ks (PInt 0)))
     = (uncoercible_field rt item (ks, As_int) \<or> overflow_field rt item (ks, As_int))"
  using py_int_errors [of rt]
  by (auto simp: field_value_def uncoercible_field_def overflow_field_def
      split: option.splits sum.splits)

lemma float_field_isl:
  "isl (py_float rt (field_value item ks (PInt 0)))
     = (uncoercible_field rt item (ks, As_float) \<or> overflow_field rt item (ks, As_float))"
  "isl (py_float rt (field_value item ks (PFloat (Fin 0))))
     = (uncoercible_field rt item (ks, As_float) \<or> overflow_field rt item (ks, As_float))"
  using py_float_errors [of rt] py_float_default [of rt]
  by (auto simp: field_value_def uncoercible_field_def overflow_field_def
      simp del: py_float.simps split: option.splits sum.splits)

lemma int_field_error:
  "py_int rt (field_value item ks (PInt 0)) = Inl e
     \<Longrightarrow> caught_item e \<or> (e = OverflowError \<and> overflow_field rt item (ks, As_int))"
  using py_int_errors [of rt]
  by (auto simp: field_value_def overflow_field_def split: option.splits)

lemma float_field_error:
  "py_float rt (field_value item ks (PInt 0)) = Inl e
     \<Longrightarrow> caught_item e \<or> (e = OverflowError \<and> overflow_field rt item (ks, As_float))"
  "py_float rt (field_value item ks (PFloat (Fin 0))) = Inl e
     \<Longrightarrow> caught_item e \<or> (e = OverflowError \<and> overflow_field rt item (ks, As_float))"
  using py_float_errors [of rt] py_float_default [of rt]
  by (auto simp: field_value_def overflow_field_def simp del: py_float.simps
      split: option.splits)

lemma make_result_isl:
  "isl (make_result rt (PDict item)) \<longleftrightarrow> uncoercible rt (PDict item) \<or> overflowing rt (PDict item)"
proof -
  have "isl (make_result rt (PDict item)) \<longleftrightarrow>
      isl (py_int rt (field_value item [''entity_count''] (PInt 0)))
    \<or> isl (py_float rt (field_value item [''real_time'', ''average_time_us''] (PInt 0)))
    \<or> isl (py_float rt (field_value item [''min_time'', ''min_time_us''] (PInt 0)))
    \<or> isl (py_float rt (field_value item [''max_time'', ''max_time_us''] (PInt 0)))
    \<or> isl (py_float rt (field_value item [''stddev'', ''std_deviation_us''] (PInt 0)))
    \<or> isl (py_float rt (field_value item [''entities_per_second''] (PInt 0)))
    \<or> isl (py_int rt (field_value item [''memory_usage'', ''peak_memory_usage''] (PInt 0)))
    \<or> isl (py_float rt (field_value item [''cache_hit_ratio''] (PFloat (Fin 0))))"
    by (simp add: isl_bind_err dict_get_field)
  also have "\<dots> \<longleftrightarrow> uncoercible rt (PDict item) \<or> overflowing rt (PDict item)"
    unfolding int_field_isl float_field_isl
    by (simp only: numeric_fields_def uncoercible.simps overflowing.simps
        list_ex_Nil_iff list_ex_Cons_iff simp_thms) blast
  finally show ?thesis .
qed

lemma make_result_error:
  assumes "make_result rt (PDict item) = Inl e"
  shows "caught_item e \<or> (e = OverflowError \<and> overflowing rt (PDict item))"
proof -
  from assms consider
      "py_int rt (field_value item [''entity_count''] (PInt 0)) = Inl e"
    | "py_float rt (field_value item [''real_time'', ''average_time_us''] (PInt 0)) = Inl e"
    | "py_float rt (field_value item [''min_time'', ''min_time_us''] (PInt 0)) = Inl e"
    | "py_float rt (field_value item [''max_time'', ''max_time_us''] (PInt 0)) = Inl e"
    | "py_float rt (field_value item [''stddev'', ''std_deviation_us''] (PInt 0)) = Inl e"
    | "py_float rt (field_value item [''entities_per_second''] (PInt 0)) = Inl e"
    | "py_int rt (field_value item [''memory_usage'', ''peak_memory_usage''] (PInt 0)) = Inl e"
    | "py_float rt (field_value item [''cache_hit_ratio''] (PFloat (Fin 0))) = Inl e"
    by (auto simp: bind_err_eq_Inl dict_get_field)
  then show ?thesis
    by cases (auto dest!: int_field_error float_field_error simp: numeric_fields_def)
qed

text \<open>
  On objects without an overflowing field the loop never leaves early: each
  entry is kept or skipped with a warning.
\<close>

lemma load_items_dicts:
  assumes "\<forall>i\<in>set items. is_dict i \<and> \<not> overflowing rt i"
  shows "\<exists>rs ws. load_items rt items results out = (out @ ws, Inr (results @ rs))
           \<and> length rs = length (filter (\<lambda>i. \<not> uncoercible rt i) items)
           \<and> length ws = length (filter (uncoercible rt) items)"
  using assms
proof (induction items arbitrary: results out)
  case Nil
  show ?case by simp
next
  case (Cons i items)
  then obtain kvs where i: "i = PDict kvs" by (cases i) auto
  from Cons.prems i have fits: "\<not> overflowing rt (PDict kvs)" by simp
  from Cons.prems have rest: "\<forall>i\<in>set items. is_dict i \<and> \<not> overflowing rt i" by simp
  show ?case
  proof (cases "make_result rt (PDict kvs)")
    case (Inl e)
    then have unc: "uncoercible rt (PDict kvs)"
      using make_result_isl [of rt kvs] fits by simp
    from make_result_error [OF Inl] fits have c: "caught_item e" by blast
    from Cons.IH [OF rest, of results "out @ [Warning_item i e]"] obtain rs ws where
      "load_items rt items results (out @ [Warning_item i e])
         = ((out @ [Warning_item i e]) @ ws, Inr (results @ rs))"
      "length rs = length (filter (\<lambda>i. \<not> uncoercible rt i) items)"
      "length ws = length (filter (uncoercible rt) items)" by blast
    then have "load_items rt (i # items) results out
                 = (out @ (Warning_item i e # ws), Inr (results @ rs))
           \<and> length rs = length (filter (\<lambda>i. \<not> uncoercible rt i) (i # items))
           \<and> length (Warning_item i e # ws) = length (filter (uncoercible rt) (i # items))"
      using i Inl c unc by simp
    then show ?thesis by blast
  next
    case (Inr r)
    then have unc: "\<not> uncoercible rt (PDict kvs)" using make_result_isl [of rt kvs] by simp
    from Cons.IH [OF rest, of "results @ [r]" out] obtain rs ws where
      "load_items rt items (results @ [r]) out = (out @ ws, Inr ((results @ [r]) @ rs))"
      "length rs = length (filter (\<lambda>i. \<not> uncoercible rt i) items)"
      "length ws = length (filter (uncoercible rt) items)" by blast
    then have "load_items rt (i # items) results out = (out @ ws, Inr (results @ (r # rs)))
           \<and> length (r # rs) = length (filter (\<lambda>i. \<not> uncoercible rt i) (i # items))
           \<and> length ws = length (filter (uncoercible rt) (i # items))"
      using i Inr unc by simp
    then show ?thesis by blast
  qed
qed

lemma load_parsed_array_shapes:
  assumes "data = PList items
         \<or> (\<exists>kvs. data = PDict kvs \<and> map_of kvs ''benchmarks'' = Some (PList items))
         \<or> (\<exists>kvs. data = PDict kvs \<and> map_of kvs ''benchmarks'' = None
                   \<and> map_of kvs ''results'' = Some (PList items))"
  shows "load_parsed rt data = load_items rt items [] []"
  using assms by (auto simp: load_parsed_def benchmark_data_def)

lemma load_results_parsed:
  assumes "read_json rt file_path = Parsed data" and "load_parsed rt data = (out, Inr results)"
  shows "load_results rt file_path = (out, Inr results)"
  using assms by (simp add: load_results_def)

text \<open>
  C5, amended. A file that parses to an array of objects, or to an object whose
  \<open>benchmarks\<close> value (or, without that key, whose \<open>results\<close> value) is an
  array of objects, in which no numeric field overflows its coercion, loads
  without an error: the records are as many as the entries minus the entries
  in which a numeric field is present with a value that cannot be coerced, and
  one warning is printed for each entry skipped. A missing numeric field takes
  the default 0 and the entry is kept.
\<close>

theorem record_count:
  assumes "read_json rt file_path = Parsed data"
    and "data = PList items
         \<or> (\<exists>kvs. data = PDict kvs \<and> map_of kvs ''benchmarks'' = Some (PList items))
         \<or> (\<exists>kvs. data = PDict kvs \<and> map_of kvs ''benchmarks'' = None
                   \<and> map_of kvs ''results'' = Some (PList items))"
    and "\<forall>i\<in>set items. is_dict i \<and> \<not> overflowing rt i"
  shows "\<exists>results warnings. load_results rt file_path = (warnings, Inr results)
           \<and> length results = length items - length (filter (uncoercible rt) items)
           \<and> length warnings = length (filter (uncoercible rt) items)"
proof -
  from load_items_dicts [OF assms(3), of "[]" "[]"] obtain rs ws where
    run: "load_items rt items [] [] = (ws, Inr rs)"
    and rs: "length rs = length (filter (\<lambda>i. \<not> uncoercible rt i) items)"
    and ws: "length ws = length (filter (uncoercible rt) items)" by auto
  have "load_parsed rt data = (ws, Inr rs)"
    using load_parsed_array_shapes [OF assms(2), of rt] run by simp
  then have res: "load_results rt file_path = (ws, Inr rs)"
    using assms(1) by (rule load_results_parsed [rotated])
  have "length (filter (uncoercible rt) items) + length (filter (\<lambda>i. \<not> uncoercible rt i) items)
          = length items"
    by (rule sum_length_filter_compl)
  then have "length rs = length items - length (filter (uncoercible rt) items)"
    using rs by simp
  with res ws show ?thesis by blast
qed

text \<open>
  C5, as stated, fails on \<^verbatim>\<open>[{"name": "t"}]\<close>: the entry has none of the numeric
  fields, the statement counts it as skipped, the loader gives it the defaults
  and returns one record.
\<close>

theorem record_count_counterexample:
  "map_sum id length (snd (load_results sample_disk ''defaults.json''))
     \<noteq> Inr (length [PDict [(''name'', PStr ''t'')]]
             - length (filter (spec_skipped sample_disk) [PDict [(''name'', PStr ''t'')]]))"
  by (simp add: load_results_def load_parsed_def benchmark_data_def sample_disk_def
      sample_runtime_def sample_files_def dict_get_def numeric_fields_def missing_field_def
      overflow_at_above)

theorem record_count_witness:
  "\<exists>results warnings. load_results sample_disk ''mixed.json'' = (warnings, Inr results)
      \<and> length results = 1 \<and> length warnings = 2"
proof -
  let ?items = "[PDict [(''name'', PStr ''a''), (''real_time'', PInt 45)],
                 PDict [(''name'', PStr ''b''), (''entity_count'', PStr ''many'')],
                 PDict [(''name'', PStr ''c''), (''real_time'', PNone)]]"
  have parsed: "read_json sample_disk ''mixed.json'' = Parsed (PDict [(''results'', PList ?items)])"
    by (simp add: sample_disk_def sample_files_def)
  have shape: "PDict [(''results'', PList ?items)] = PList ?items
         \<or> (\<exists>kvs. PDict [(''results'', PList ?items)] = PDict kvs
                   \<and> map_of kvs ''benchmarks'' = Some (PList ?items))
         \<or> (\<exists>kvs. PDict [(''results'', PList ?items)] = PDict kvs
                   \<and> map_of kvs ''benchmarks'' = None
                   \<and> map_of kvs ''results'' = Some (PList ?items))"
    by simp
  have dicts: "\<forall>i\<in>set ?items. is_dict i \<and> \<not> overflowing sample_disk i"
    by (simp add: numeric_fields_def overflow_field_def sample_disk_def sample_runtime_def
        overflow_at_above)
  have skipped: "filter (uncoercible sample_disk) ?items
                   = [PDict [(''name'', PStr ''b''), (''entity_count'', PStr ''many'')],
                      PDict [(''name'', PStr ''c''), (''real_time'', PNone)]]"
    by (simp add: numeric_fields_def uncoercible_field_def sample_disk_def sample_runtime_def
        overflow_at_above)
  from record_count [OF parsed shape dicts] show ?thesis
    unfolding skipped by (simp add: numeral_2_eq_2)
qed

lemma load_items_from:
  "snd (load_items rt items results out) = Inr rs \<Longrightarrow> r \<in> set rs
     \<Longrightarrow> r \<in> set results \<or> (\<exists>i\<in>set items. make_result rt i = Inr r)"
proof (induction items arbitrary: results out)
  case Nil
  then show ?case by simp
next
  case (Cons i items)
  show ?case
  proof (cases "make_result rt i")
    case (Inr x)
    with Cons.prems have "snd (load_items rt items (results @ [x]) out) = Inr rs" by simp
    from Cons.IH [OF this Cons.prems(2)] Inr show ?thesis by auto
  next
    case (Inl e)
    show ?thesis
    proof (cases "caught_item e")
      case True
      with Inl Cons.prems
      have "snd (load_items rt items results (out @ [Warning_item i e])) = Inr rs" by simp
      from Cons.IH [OF this Cons.prems(2)] show ?thesis by auto
    next
      case False
      with Inl Cons.prems show ?thesis by simp
    qed
  qed
qed

lemma make_result_times:
  assumes "make_result rt i = Inr r"
  shows "\<exists>item. i = PDict item
     \<and> py_float rt (dict_get item ''real_time'' (dict_get item ''average_time_us'' (PInt 0)))
         = Inr (average_time_us r)
     \<and> py_float rt (dict_get item ''min_time'' (dict_get item ''min_time_us'' (PInt 0)))
         = Inr (min_time_us r)
     \<and> py_float rt (dict_get item ''max_time'' (dict_get item ''max_time_us'' (PInt 0)))
         = Inr (max_time_us r)"
proof (cases i)
  case (PDict item)
  with assms show ?thesis by (auto simp: bind_err_eq_Inr)
qed (use assms in simp_all)

text \<open>
  C9, amended. The loader validates nothing: every record it returns comes from
  an entry of the file that is an object, and its average, minimum and maximum
  time are the float coercions of what the entry holds under \<open>real_time\<close>,
  \<open>min_time\<close>, \<open>max_time\<close> (then \<open>average_time_us\<close>, \<open>min_time_us\<close>,
  \<open>max_time_us\<close>, then 0). The record satisfies the invariant of the data model
  exactly when those values do.
\<close>

theorem loaded_times:
  assumes "read_json rt file_path = Parsed data"
    and "bind_err (benchmark_data data) py_iter = Inr items"
    and "snd (load_results rt file_path) = Inr results"
    and "r \<in> set results"
  shows "\<exists>item. PDict item \<in> set items
     \<and> py_float rt (dict_get item ''real_time'' (dict_get item ''average_time_us'' (PInt 0)))
         = Inr (average_time_us r)
     \<and> py_float rt (dict_get item ''min_time'' (dict_get item ''min_time_us'' (PInt 0)))
         = Inr (min_time_us r)
     \<and> py_float rt (dict_get item ''max_time'' (dict_get item ''max_time_us'' (PInt 0)))
         = Inr (max_time_us r)"
proof -
  have parsed: "load_parsed rt data = load_items rt items [] []"
    using assms(2) by (simp add: load_parsed_def)
  have "snd (load_items rt items [] []) = Inr results"
  proof (cases "snd (load_items rt items [] [])")
    case (Inr rs)
    with assms(1,3) parsed show ?thesis
      by (simp add: load_results_def split: prod.splits)
  next
    case (Inl e)
    with assms(1,3) parsed have "results = []"
      by (simp add: load_results_def split: prod.splits if_splits)
    with assms(4) show ?thesis by simp
  qed
  from load_items_from [OF this assms(4)]
  obtain i where "i \<in> set items" and "make_result rt i = Inr r" by auto
  with make_result_times [of rt i r] show ?thesis by auto
qed

text \<open>
  C9, as stated, fails on an entry with \<open>real_time\<close> -5, minimum 1 and maximum 2:
  the record loaded has the average -5.
\<close>

theorem loaded_times_counterexample:
  "map_sum id (map average_time_us) (snd (load_results sample_disk ''negative.json''))
     = Inr [Fin (- 5)]"
  by (simp add: load_results_def load_parsed_def benchmark_data_def sample_disk_def
      sample_runtime_def sample_files_def dict_get_def overflow_at_above)

theorem loaded_times_witness:
  "\<exists>r item. snd (load_results sample_disk ''negative.json'') = Inr [r]
       \<and> item = [(''name'', PStr ''t''), (''real_time'', PInt (- 5)),
                  (''min_time'', PInt 1), (''max_time'', PInt 2)]
       \<and> average_time_us r = Fin (- 5) \<and> min_time_us r = Fin 1 \<and> max_time_us r = Fin 2"
proof -
  let ?item = "[(''name'', PStr ''t''), (''real_time'', PInt (- 5)),
                (''min_time'', PInt 1), (''max_time'', PInt 2)]"
  have parsed: "read_json sample_disk ''negative.json'' = Parsed (PList [PDict ?item])"
    by (simp add: sample_disk_def sample_files_def)
  have items: "bind_err (benchmark_data (PList [PDict ?item])) py_iter = Inr [PDict ?item]"
    by (simp add: benchmark_data_def)
  have "\<exists>r. snd (load_results sample_disk ''negative.json'') = Inr [r]"
    by (simp add: load_results_def load_parsed_def benchmark_data_def sample_disk_def
      sample_runtime_def sample_files_def dict_get_def overflow_at_above)
  then obtain r where run: "snd (load_results sample_disk ''negative.json'') = Inr [r]" ..
  have mem: "r \<in> set [r]" by simp
  from loaded_times [OF parsed items run mem] run show ?thesis
    by (auto simp: dict_get_def overflow_at_above)
qed

text \<open>
  C10. The shape dispatch is ordered. On an object with a \<open>benchmarks\<close> key the
  result depends on the value under that key alone, whatever else the object
  holds, a \<open>results\<close> key included; when the value is an array its elements are
  the items loaded. An object with neither key is loaded as one item: whenever
  the load returns it yields at most one record, and it does return unless a
  numeric field of the object overflows its coercion.
\<close>

theorem dispatch_order:
  "(map_of kvs ''benchmarks'' = Some bv \<and> map_of kvs' ''benchmarks'' = Some bv
      \<longrightarrow> load_parsed rt (PDict kvs) = load_parsed rt (PDict kvs'))
   \<and> (map_of kvs ''benchmarks'' = Some (PList items)
      \<longrightarrow> load_parsed rt (PDict kvs) = load_items rt items [] [])
   \<and> (map_of kvs ''benchmarks'' = None \<and> map_of kvs ''results'' = None
      \<longrightarrow> load_parsed rt (PDict kvs) = load_items rt [PDict kvs] [] []
        \<and> (\<forall>rs. snd (load_parsed rt (PDict kvs)) = Inr rs \<longrightarrow> length rs \<le> 1)
        \<and> (\<not> overflowing rt (PDict kvs)
             \<longrightarrow> (\<exists>rs. snd (load_parsed rt (PDict kvs)) = Inr rs)))"
proof -
  have single: "\<forall>rs. snd (load_items rt [PDict kvs] [] []) = Inr rs \<longrightarrow> length rs \<le> 1"
    by (cases "make_result rt (PDict kvs)") (auto split: if_splits)
  have returns: "\<not> overflowing rt (PDict kvs)
                   \<longrightarrow> (\<exists>rs. snd (load_items rt [PDict kvs] [] []) = Inr rs)"
    using make_result_error [of rt kvs]
    by (cases "make_result rt (PDict kvs)") auto
  from single returns show ?thesis
    by (auto simp: load_parsed_def benchmark_data_def)
qed

theorem dispatch_order_witness:
  "map_sum id (map test_name) (snd (load_results sample_disk ''both.json'')) = Inr [PStr ''a'']"
proof -
  let ?kvs = "[(''benchmarks'', PList [PDict [(''name'', PStr ''a'')]]),
               (''results'', PList [PDict [(''name'', PStr ''b'')], PDict [(''name'', PStr ''c'')]])]"
  have b: "map_of ?kvs ''benchmarks'' = Some (PList [PDict [(''name'', PStr ''a'')]])" by simp
  have parsed: "read_json sample_disk ''both.json'' = Parsed (PDict ?kvs)"
    by (simp add: sample_disk_def sample_files_def)
  from dispatch_order [where kvs = ?kvs and items = "[PDict [(''name'', PStr ''a'')]]"
      and rt = sample_disk] b
  have "load_parsed sample_disk (PDict ?kvs)
          = load_items sample_disk [PDict [(''name'', PStr ''a'')]] [] []" by blast
  then show ?thesis
    using parsed by (simp add: load_results_def dict_get_def overflow_at_above)
qed

text \<open>
  C4. A file that parses to the array \<^verbatim>\<open>[1]\<close>: \<^verbatim>\<open>item.get\<close> raises AttributeError
  on the number, neither handler catches it, and it leaves \<open>load_results\<close>.
\<close>

theorem loader_raises_on_non_object:
  "load_results sample_disk ''numbers.json'' = ([], Inl AttributeError)"
  by (simp add: load_results_def load_parsed_def benchmark_data_def sample_disk_def
      sample_files_def)

text \<open>
  The same happens with the OverflowError of a coercion: an object whose
  \<open>entity_count\<close> is an infinite float.
\<close>

lemma loader_raises_on_infinity:
  "load_results sample_disk ''infinite.json'' = ([], Inl OverflowError)"
  by (simp add: load_results_def load_parsed_def benchmark_data_def sample_disk_def
      sample_files_def dict_get_def)

text \<open>What the outer handler does catch: the error is printed and the result is empty.\<close>

lemma load_results_caught:
  assumes "read_json rt file_path = Raises e" and "caught_file e"
  shows "load_results rt file_path = ([Error_loading file_path e], Inr [])"
  using assms by (simp add: load_results_def)

section \<open>Properties of the command line\<close>

lemma load_current_empty:
  "\<forall>f\<in>set files. snd (load_results rt f) = Inr [] \<Longrightarrow> load_current rt files acc = Inr acc"
  by (induction files arbitrary: acc) simp_all

lemma run_analysis_count:
  assumes "run_analysis rt thr files bf = Inr analysis"
  shows "regressions_detected analysis = length (regressions analysis)"
  using assms
  by (auto simp: run_analysis_def bind_err_eq_Inr split: if_splits option.splits)

text \<open>\<^verbatim>\<open>main\<close> once the analysis has returned.\<close>

lemma main_cases:
  assumes "run_analysis rt (arg_threshold args) (arg_current args) (arg_baseline args) = Inr analysis"
  shows "main rt args =
     (case write_json_file rt (arg_output args) of
        Some e \<Rightarrow> (2, [Export_json (arg_output args) False])
      | None \<Rightarrow>
          (case arg_report args of
             None \<Rightarrow> (if regressions analysis = [] then 0 else 1,
                       [Export_json (arg_output args) True])
           | Some rf \<Rightarrow>
               if rf = [] then (if regressions analysis = [] then 0 else 1,
                                [Export_json (arg_output args) True])
               else if write_report_file rt rf = None
               then (if regressions analysis = [] then 0 else 1,
                     [Export_json (arg_output args) True, Report_markdown rf True])
               else (2, [Export_json (arg_output args) True, Report_markdown rf False])))"
  using run_analysis_count [OF assms]
  by (auto simp: main_def assms Let_def split: option.splits)

text \<open>
  C6. The exit code: when the analysis returns and every requested output is
  written, it is 0 if no regression was detected and 1 otherwise; when the
  analysis raises or an output cannot be written, it is 2. When every current
  file loads to no result, the process exits with 2 and attempts no write.
\<close>

theorem exit_codes:
  "(run_analysis rt (arg_threshold args) (arg_current args) (arg_baseline args) = Inr analysis
      \<and> writes_succeed rt args
      \<longrightarrow> fst (main rt args) = (if regressions analysis = [] then 0 else 1))
   \<and> (isl (run_analysis rt (arg_threshold args) (arg_current args) (arg_baseline args))
      \<or> \<not> writes_succeed rt args
      \<longrightarrow> fst (main rt args) = 2)
   \<and> ((\<forall>f\<in>set (arg_current args). snd (load_results rt f) = Inr [])
      \<longrightarrow> main rt args = (2, []))"
proof (intro conjI impI)
  assume "run_analysis rt (arg_threshold args) (arg_current args) (arg_baseline args) = Inr analysis
      \<and> writes_succeed rt args"
  then show "fst (main rt args) = (if regressions analysis = [] then 0 else 1)"
    by (auto simp: main_cases writes_succeed_def split: option.splits)
next
  assume bad: "isl (run_analysis rt (arg_threshold args) (arg_current args) (arg_baseline args))
      \<or> \<not> writes_succeed rt args"
  show "fst (main rt args) = 2"
  proof (cases "run_analysis rt (arg_threshold args) (arg_current args) (arg_baseline args)")
    case (Inl e)
    then show ?thesis by (simp add: main_def)
  next
    case (Inr a)
    with bad have "\<not> writes_succeed rt args" by simp
    then show ?thesis
      by (auto simp: main_cases [OF Inr] writes_succeed_def split: option.splits)
  qed
next
  assume "\<forall>f\<in>set (arg_current args). snd (load_results rt f) = Inr []"
  then have "load_current rt (arg_current args) [] = Inr []"
    by (rule load_current_empty)
  then have "run_analysis rt (arg_threshold args) (arg_current args) (arg_baseline args)
               = Inl ValueError"
    by (simp add: run_analysis_def)
  then show "main rt args = (2, [])" by (simp add: main_def)
qed

text \<open>
  C8, amended. The two writes are sequential. The JSON export comes first; when
  it fails the process exits with 2 and the report is not attempted. When it
  succeeds and a report path is given, the report is attempted after the JSON
  file is written, and its failure gives exit code 2 as well. No write failure
  passes unreported.
\<close>

theorem write_order:
  assumes "run_analysis rt (arg_threshold args) (arg_current args) (arg_baseline args) = Inr analysis"
  shows "(write_json_file rt (arg_output args) \<noteq> None
            \<longrightarrow> main rt args = (2, [Export_json (arg_output args) False]))
       \<and> (write_json_file rt (arg_output args) = None \<and> arg_report args = Some rf \<and> rf \<noteq> []
            \<longrightarrow> snd (main rt args)
                  = [Export_json (arg_output args) True,
                     Report_markdown rf (write_report_file rt rf = None)]
              \<and> (write_report_file rt rf \<noteq> None \<longrightarrow> fst (main rt args) = 2))"
  by (auto simp: main_cases [OF assms])

lemma sample_loads:
  "snd (load_results (sample_disk \<lparr> write_json_file := wj, write_report_file := wr \<rparr>)
          ''current.json'')
     = Inr [sample_result ''create_entity'' ''archetype'' 1000 54 0]"
  "snd (load_results (sample_disk \<lparr> write_json_file := wj, write_report_file := wr \<rparr>)
          ''baseline.json'')
     = Inr [sample_result ''create_entity'' ''archetype'' 1000 45 0]"
  by (simp_all add: load_results_def load_parsed_def benchmark_data_def sample_disk_def
      sample_runtime_def sample_files_def sample_result_def dict_get_def overflow_at_above)

lemma sample_detect:
  "detect_regressions (sample_disk \<lparr> write_json_file := wj, write_report_file := wr \<rparr>)
     (Fin (1 / 20)) [sample_result ''create_entity'' ''archetype'' 1000 45 0]
     [sample_result ''create_entity'' ''archetype'' 1000 54 0]
   = Inr (regressions sample_analysis, [])"
proof -
  have keys: "result_key (sample_disk \<lparr> write_json_file := wj, write_report_file := wr \<rparr>)
                (sample_result ''create_entity'' ''archetype'' 1000 v 0)
              = ''create_entity_archetype_1000''" for v
    by (simp add: result_key_def sample_disk_def sample_runtime_def sample_result_def
        decimal.simps)
  have pair: "compare_pair (Fin (1 / 20)) (sample_result ''create_entity'' ''archetype'' 1000 45 0)
                (sample_result ''create_entity'' ''archetype'' 1000 54 0)
              = Inr (Some (hd (regressions sample_analysis)))"
    by (subst sample_compare) (simp_all add: py_min_def sample_analysis_def)
  show ?thesis
    by (simp add: detect_regressions_def baseline_lookup_def keys pair sort_reverse_def
        py_sort_def) (simp add: sample_analysis_def)
qed

lemma sample_run:
  "run_analysis (sample_disk \<lparr> write_json_file := wj, write_report_file := wr \<rparr>)
     (arg_threshold sample_args) (arg_current sample_args) (arg_baseline sample_args)
   = Inr sample_analysis"
proof -
  have env: "path_exists sample_disk ''baseline.json''"
    "text_sections sample_disk cs rs is = None" for cs rs "is"
    by (simp_all add: sample_disk_def sample_runtime_def)
  show ?thesis
    by (simp add: run_analysis_def load_baseline_def sample_args_def sample_loads sample_detect
        env) (simp add: sample_analysis_def)
qed

theorem exit_codes_witness:
  "fst (main sample_disk sample_args) = 1
   \<and> main sample_disk (sample_args \<lparr> arg_current := [''missing.json'', ''broken.json''] \<rparr>)
       = (2, [])"
proof -
  have same: "sample_disk \<lparr> write_json_file := (\<lambda>p. None), write_report_file := (\<lambda>p. None) \<rparr>
                = sample_disk"
    by (simp add: sample_disk_def sample_runtime_def)
  have run: "run_analysis sample_disk (arg_threshold sample_args) (arg_current sample_args)
               (arg_baseline sample_args) = Inr sample_analysis"
    using sample_run [where wj = "\<lambda>p. None" and wr = "\<lambda>p. None"] by (simp only: same)
  have ws: "writes_succeed sample_disk sample_args"
    by (simp add: writes_succeed_def sample_disk_def sample_runtime_def sample_args_def)
  have none: "\<forall>f\<in>set (arg_current
                 (sample_args \<lparr> arg_current := [''missing.json'', ''broken.json''] \<rparr>)).
                snd (load_results sample_disk f) = Inr []"
    by (simp add: load_results_def sample_disk_def sample_files_def)
  from exit_codes [of sample_disk sample_args sample_analysis] run ws
  have "fst (main sample_disk sample_args) = 1"
    by (simp add: sample_analysis_def)
  moreover from exit_codes [of sample_disk
      "sample_args \<lparr> arg_current := [''missing.json'', ''broken.json''] \<rparr>"] none
  have "main sample_disk (sample_args \<lparr> arg_current := [''missing.json'', ''broken.json''] \<rparr>)
          = (2, [])"
    by blast
  ultimately show ?thesis by simp
qed

text \<open>
  C8, as stated, fails when the JSON output cannot be written: the
  report was asked for, yet the only write attempted is the JSON export.
\<close>

theorem write_order_counterexample:
  "main (sample_disk \<lparr> write_json_file := (\<lambda>p. Some PermissionError),
                        write_report_file := (\<lambda>p. None) \<rparr>) sample_args
     = (2, [Export_json ''analysis.json'' False])"
  unfolding main_cases [OF sample_run] by (simp add: sample_args_def)

theorem write_order_witness:
  "main (sample_disk \<lparr> write_json_file := (\<lambda>p. None),
                        write_report_file := (\<lambda>p. Some PermissionError) \<rparr>) sample_args
     = (2, [Export_json ''analysis.json'' True, Report_markdown ''report.md'' False])"
proof -
  let ?rt = "sample_disk \<lparr> write_json_file := (\<lambda>p. None),
                           write_report_file := (\<lambda>p. Some PermissionError) \<rparr>"
  have json: "write_json_file ?rt (arg_output sample_args) = None
                \<and> arg_report sample_args = Some ''report.md'' \<and> ''report.md'' \<noteq> []"
    by (simp add: sample_args_def)
  have report: "write_report_file ?rt ''report.md'' \<noteq> None" by simp
  from write_order [OF sample_run [where wj = "\<lambda>p. None" and wr = "\<lambda>p. Some PermissionError"], of "''report.md''"]
    json report
  have "snd (main ?rt sample_args)
          = [Export_json (arg_output sample_args) True, Report_markdown ''report.md'' False]"
    and "fst (main ?rt sample_args) = 2"
    by simp_all
  then show ?thesis
    by (simp add: prod_eq_iff sample_args_def)
qed

end
